theory Spec2Isabelle
  imports Complex_Main "HOL-Library.Log_Nat"
begin

section \<open>Data model\<close>

text \<open>
  The development embeds the playback screen of the application
  (\<^verbatim>\<open>src/screens/VideoPlayerScreen.tsx\<close>) together with the \<^verbatim>\<open>debounce\<close> helper of
  \<^verbatim>\<open>src/utils/helpers.ts\<close>.

  A JavaScript number that is read from a message, a document or the clock is the
  rational value of a double.  The completion percentage is computed as the source
  computes it, in IEEE-754 double precision (section ``Double precision''): the quotient
  and the product of line 65 are each rounded to the nearest double.  Sums of
  timestamps (\<^verbatim>\<open>Date.now()\<close> plus a number of minutes in milliseconds) are exact, as they
  are in double precision for whole milliseconds below \<open>2^53\<close>.  Wall-clock readings
  (\<^verbatim>\<open>Date.now()\<close>, \<^verbatim>\<open>Timestamp.now()\<close>) are integers in milliseconds.
\<close>

section \<open>Double precision\<close>

text \<open>
  The value of a JavaScript expression of type number: a finite double, given by its
  rational value, or an infinity.  \<^verbatim>\<open>NaN\<close> does not arise: the operands below are
  finite and the divisor is not 0.  The two zeros are not told apart.
\<close>

datatype number = Finite rat | PosInfinity | NegInfinity

definition pow2 :: "int \<Rightarrow> rat" where
  "pow2 k = (if 0 \<le> k then 2 ^ nat k else 1 / 2 ^ nat (- k))"

text \<open>The exponent \<open>e\<close> with \<open>2^e \<le> a < 2^(e+1)\<close>, for a positive \<open>a\<close>.\<close>

definition floorLog2 :: "rat \<Rightarrow> int" where
  "floorLog2 a =
     (let k = bitlen (fst (quotient_of a)) - bitlen (snd (quotient_of a))
      in if pow2 k \<le> a then k else k - 1)"

definition roundHalfEven :: "rat \<Rightarrow> int" where
  "roundHalfEven r =
     (let f = \<lfloor>r\<rfloor>; d = r - of_int f
      in if d < 1 / 2 then f else if 1 / 2 < d then f + 1 else if even f then f else f + 1)"

text \<open>
  The double nearest to a rational, ties to the even significand (the rounding of every
  arithmetic operation of JavaScript, and of reading a decimal literal): 53 bits of
  significand, gradual underflow below \<open>2^-1022\<close>, overflow to an infinity from \<open>2^1024\<close>.
\<close>

definition toDouble :: "rat \<Rightarrow> number" where
  "toDouble x =
     (if x = 0 then Finite 0
      else
        let a = \<bar>x\<bar>;
            ulp = pow2 (max (floorLog2 a) (- 1022) - 52);
            v = of_int (roundHalfEven (a / ulp)) * ulp
        in if pow2 1024 \<le> v then (if 0 < x then PosInfinity else NegInfinity)
           else Finite (if 0 < x then v else - v))"

text \<open>\<^verbatim>\<open>x * 100\<close>, \<^verbatim>\<open>Math.min(100, x)\<close> and \<^verbatim>\<open>x >= 98\<close>.\<close>

fun times100 :: "number \<Rightarrow> number" where
  "times100 (Finite a) = toDouble (a * 100)"
| "times100 PosInfinity = PosInfinity"
| "times100 NegInfinity = NegInfinity"

fun min100 :: "number \<Rightarrow> number" where
  "min100 (Finite a) = Finite (min 100 a)"
| "min100 PosInfinity = Finite 100"
| "min100 NegInfinity = NegInfinity"

fun atLeast98 :: "number \<Rightarrow> bool" where
  "atLeast98 (Finite a) = (98 \<le> a)"
| "atLeast98 PosInfinity = True"
| "atLeast98 NegInfinity = False"

text \<open>\<^verbatim>\<open>(position / duration) * 100\<close> for a duration other than 0 (lines 65 and 225).\<close>

definition percentage :: "rat \<Rightarrow> rat \<Rightarrow> number" where
  "percentage position d = times100 (toDouble (position / d))"

text \<open>
  \<^verbatim>\<open>parseFloat(x.toFixed(1))\<close>.  \<^verbatim>\<open>toFixed\<close> works on the exact value of the double: it
  picks the integer \<open>n\<close> with \<open>n / 10\<close> closest to it and the larger one on a tie, after
  taking the sign off; from \<open>10^21\<close> on, and for an infinity, it prints the number itself.
  \<^verbatim>\<open>parseFloat\<close> reads the decimal back as the nearest double.
\<close>

fun toFixed1 :: "number \<Rightarrow> number" where
  "toFixed1 (Finite x) =
     (if 10 ^ 21 \<le> \<bar>x\<bar> then Finite x
      else if x < 0 then toDouble (- (of_int \<lfloor>- x * 10 + 1 / 2\<rfloor> / 10))
      else toDouble (of_int \<lfloor>x * 10 + 1 / 2\<rfloor> / 10))"
| "toFixed1 PosInfinity = PosInfinity"
| "toFixed1 NegInfinity = NegInfinity"

section \<open>Records\<close>

record VideoProgress =
  lastPosition :: rat
  completionPercentage :: number
  completed :: bool
  lastUpdated :: int

text \<open>Of the \<^verbatim>\<open>Video\<close> document only the fields read by the screen's logic are kept.\<close>

record VideoData =
  duration :: rat
  progress :: "VideoProgress option"

text \<open>\<^verbatim>\<open>enum YTPlayerState\<close>.\<close>

definition UNSTARTED :: int where "UNSTARTED = - 1"
definition ENDED :: int where "ENDED = 0"
definition PLAYING :: int where "PLAYING = 1"
definition PAUSED :: int where "PAUSED = 2"
definition BUFFERING :: int where "BUFFERING = 3"
definition CUED :: int where "CUED = 5"

text \<open>
  \<^verbatim>\<open>interface WebViewMessage\<close>.  The tag is a string at run time, so a tag outside the
  five declared ones is possible and falls through the \<^verbatim>\<open>switch\<close>.
\<close>

datatype messageType =
  PLAYER_READY | PLAYER_STATE_CHANGE | PLAYER_ERROR | TIME_UPDATE | SESSION_END_REQUEST
  | OTHER_TYPE

record WebViewMessage =
  msgType :: messageType
  currentTime :: "rat option"
  playerState :: "int option"
  errorCode :: "int option"

text \<open>The outcome of \<^verbatim>\<open>JSON.parse(event.nativeEvent.data)\<close>: it throws or yields a message.\<close>

datatype parsed = SyntaxError | Parsed WebViewMessage

text \<open>Scripts handed to \<^verbatim>\<open>injectJavaScript\<close>, alerts raised and console lines written.\<close>

datatype script =
  SeekTo rat
  | PostSessionEndRequest rat   \<comment> \<open>post \<^verbatim>\<open>SESSION_END_REQUEST\<close>; the argument is the fallback time\<close>
  | PostTimeUpdate

datatype alert =
  SessionEndedAlert | SessionExtended | SessionStartedExtended rat | PlayerErrorAlert "int option"
  | AuthenticationError | VideoNotFound | LoadError

datatype logline =
  ProgressSaved int | SaveFailed | SessionTimeEnded | PlayerIsReady
  | PlayerErrorLogged "int option" | ParseError | CameToForeground | WentToBackground
  | FetchError | LosingFocus

datatype appStateStatus = Active | Background | Inactive | Unknown | Extension

datatype 'a fetched = Threw | Absent | Doc 'a

section \<open>Debounced closures and the screen state\<close>

text \<open>
  \<^verbatim>\<open>debounce(func, delay)\<close> returns a closure owning one \<^verbatim>\<open>timeoutId\<close>.  The screen wraps
  it in \<^verbatim>\<open>useCallback(..., [videoData, videoId, isFocused])\<close>: the closure in use is
  replaced whenever \<^verbatim>\<open>videoData\<close> or \<^verbatim>\<open>isFocused\<close> changes, and each closure sees
  the \<^verbatim>\<open>videoData\<close> and \<^verbatim>\<open>isFocused\<close> of the render that created it.  A pending
  timeout of a replaced closure is not cleared.  One \<open>saver\<close> is one such closure; a pending
  timeout is its due time with the arguments of the last call.
\<close>

record saver =
  env_videoData :: "VideoData option"
  env_isFocused :: bool
  timeoutId :: "(int \<times> rat \<times> bool option) option"

text \<open>
  The values of the last committed render that the hooks compare their dependency arrays
  against, and that the closures of the effects hold.  \<open>d_videoDataRef\<close> stands for the
  identity of the \<^verbatim>\<open>videoData\<close> object.
\<close>

record deps =
  d_videoDataRef :: nat
  d_videoData :: "VideoData option"
  d_isFocused :: bool
  d_sessionEndTime :: "rat option"
  d_currentPlaybackTime :: rat
  d_isPlayerReady :: bool
  d_debouncedSaveProgress :: nat

record screen =
  videoId :: string
  videoData :: "VideoData option"
  videoDataRef :: nat
  userPrefs :: "rat option"
  sessionEndTime :: "rat option"
  isLoading :: bool
  gone :: bool
  isPlayerReady :: bool
  currentPlaybackTime :: rat
  sessionTimeRemaining :: int
  isFocused :: bool
  sessionTimerIntervalRef :: "int option"
  appState :: appStateStatus
  savers :: "saver list"
  debouncedSaveProgress :: nat
  rendered :: deps
  now :: int
  storeOnline :: bool
  storeWrites :: "(string \<times> VideoProgress) list"
  injected :: "script list"
  alerts :: "alert list"
  console :: "logline list"

section \<open>Saving progress\<close>

text \<open>The object literal \<^verbatim>\<open>newProgress\<close> (lines 65 to 71).\<close>

definition newProgress :: "VideoData \<Rightarrow> int \<Rightarrow> rat \<Rightarrow> bool option \<Rightarrow> VideoProgress" where
  "newProgress v t position isCompleted =
     (let pct = min100 (percentage position (duration v)) in
        \<lparr>lastPosition = of_int \<lfloor>position\<rfloor>,
         completionPercentage = toFixed1 pct,
         completed = (isCompleted = Some True \<or> atLeast98 pct),
         lastUpdated = t\<rparr>)"

text \<open>
  \<^verbatim>\<open>setVideoData(prev => (prev ? { ...prev, progress: newProgress } : null))\<close>: a new
  object unless there was none.
\<close>

definition setProgress :: "VideoProgress \<Rightarrow> screen \<Rightarrow> screen" where
  "setProgress p s =
     (case videoData s of
        None \<Rightarrow> s
      | Some prev \<Rightarrow>
          s\<lparr>videoData := Some (prev\<lparr>progress := Some p\<rparr>), videoDataRef := Suc (videoDataRef s)\<rparr>)"

text \<open>
  The function wrapped by \<^verbatim>\<open>debounce\<close> (lines 62 to 82), run by closure \<open>c\<close>.  The
  \<^verbatim>\<open>update\<close> call is logged in \<open>storeWrites\<close> when it is issued; it resolves when
  \<open>storeOnline\<close> holds and rejects otherwise.
\<close>

definition saveProgress :: "saver \<Rightarrow> rat \<Rightarrow> bool option \<Rightarrow> screen \<Rightarrow> screen" where
  "saveProgress c position isCompleted s =
     (case env_videoData c of
        None \<Rightarrow> s
      | Some v \<Rightarrow>
          if duration v = 0 \<or> \<not> env_isFocused c then s
          else
            let p = newProgress v (now s) position isCompleted;
                s1 = s\<lparr>storeWrites := storeWrites s @ [(videoId s, p)]\<rparr>
            in if storeOnline s
               then setProgress p (s1\<lparr>console := console s1 @ [ProgressSaved \<lfloor>position\<rfloor>]\<rparr>)
               else s1\<lparr>console := console s1 @ [SaveFailed]\<rparr>)"

text \<open>
  A call of the debounced closure number \<open>i\<close>: \<^verbatim>\<open>clearTimeout\<close> of the pending timeout,
  then \<^verbatim>\<open>setTimeout(..., 3000)\<close> with the new arguments.
\<close>

definition callDebounced :: "nat \<Rightarrow> rat \<Rightarrow> bool option \<Rightarrow> screen \<Rightarrow> screen" where
  "callDebounced i position isCompleted s =
     (if i < length (savers s)
      then s\<lparr>savers := (savers s)
             [i := (savers s ! i)\<lparr>timeoutId := Some (now s + 3000, position, isCompleted)\<rparr>]\<rparr>
      else s)"

section \<open>The session timer\<close>

text \<open>The web view exists once the screen renders more than the activity indicator.\<close>

definition webViewRef_current :: "screen \<Rightarrow> bool" where
  "webViewRef_current s = (\<not> isLoading s \<and> videoData s \<noteq> None)"

definition injectJavaScript :: "script \<Rightarrow> screen \<Rightarrow> screen" where
  "injectJavaScript c s = (if webViewRef_current s then s\<lparr>injected := injected s @ [c]\<rparr> else s)"

text \<open>
  \<^verbatim>\<open>updateTimer\<close> (lines 141 to 159), closed over the \<^verbatim>\<open>sessionEndTime\<close> and
  \<^verbatim>\<open>currentPlaybackTime\<close> of the render that ran the effect.
\<close>

definition updateTimer :: "rat \<Rightarrow> rat \<Rightarrow> screen \<Rightarrow> screen" where
  "updateTimer endAt fallback s =
     (let remaining = max 0 \<lfloor>(endAt - of_int (now s)) / 1000\<rfloor>;
          s1 = s\<lparr>sessionTimeRemaining := remaining\<rparr>
      in if remaining \<le> 0
         then (injectJavaScript (PostSessionEndRequest fallback)
                 (s1\<lparr>console := console s1 @ [SessionTimeEnded]\<rparr>))\<lparr>sessionTimerIntervalRef := None\<rparr>
         else s1)"

text \<open>A JavaScript number or \<^verbatim>\<open>null\<close> used as a condition.\<close>

definition truthy :: "rat option \<Rightarrow> bool" where
  "truthy x = (x \<noteq> None \<and> x \<noteq> Some 0)"

text \<open>
  The body of the timer effect (lines 136 to 162).  The first \<^verbatim>\<open>updateTimer()\<close> runs
  before \<^verbatim>\<open>setInterval\<close>, so the \<^verbatim>\<open>clearInterval\<close> inside it cannot stop the interval
  that is created next.  \<open>sessionTimerIntervalRef\<close> holds the time of the next tick.
\<close>

definition timerEffect :: "screen \<Rightarrow> screen" where
  "timerEffect s =
     (let s1 = s\<lparr>sessionTimerIntervalRef := None\<rparr> in
      case sessionEndTime s1 of
        None \<Rightarrow> s1
      | Some endAt \<Rightarrow>
          if endAt \<noteq> 0 \<and> isFocused s1
          then (updateTimer endAt (currentPlaybackTime s1) s1)
                 \<lparr>sessionTimerIntervalRef := Some (now s1 + 1000)\<rparr>
          else s1)"

definition timerCleanup :: "screen \<Rightarrow> screen" where
  "timerCleanup s = s\<lparr>sessionTimerIntervalRef := None\<rparr>"

text \<open>
  The cleanup of the \<^verbatim>\<open>AppState\<close> effect (lines 198 to 204).  Its closure holds the
  values of the render that ran the effect, and the debounced closure of that render.
\<close>

definition appStateCleanup :: "screen \<Rightarrow> screen" where
  "appStateCleanup s =
     (let r = rendered s in
      if 0 < d_currentPlaybackTime r \<and> d_videoData r \<noteq> None
      then callDebounced (d_debouncedSaveProgress r) (d_currentPlaybackTime r) None s
      else s)"

text \<open>
  The cleanup of the focus effect (lines 208 to 221): it only writes a console line.
\<close>

definition focusCleanup :: "screen \<Rightarrow> screen" where
  "focusCleanup s =
     (let r = rendered s in
      if 0 < d_currentPlaybackTime r \<and> d_videoData r \<noteq> None
      then s\<lparr>console := console s @ [LosingFocus]\<rparr>
      else s)"

section \<open>Rendering and effects\<close>

text \<open>
  The rules of React the screen relies on, as its documentation states them:
  \<^item> a state setter called with the value the state already has causes no render;
  \<^item> \<^verbatim>\<open>useCallback(f, deps)\<close> returns the function of the previous render unless a
    dependency changed, compared with \<^verbatim>\<open>Object.is\<close>;
  \<^item> after a render in which a dependency of \<^verbatim>\<open>useEffect(f, deps)\<close> changed, the cleanup
    returned by the previous run of the effect runs first, with the values it closed
    over, and then \<^verbatim>\<open>f\<close> of the new render runs;
  \<^item> \<^verbatim>\<open>useFocusEffect\<close> runs its callback while the screen is focused, and the cleanup
    when the screen loses focus or the callback changes.
  A handler runs to its end before the render it causes, and the effects of that render
  run before the next event or timer.  The awaited store update is taken to settle at
  once.  That the screen is popped or torn down is recorded in \<open>gone\<close>; what unmounting
  then does (the cleanups of all effects) is outside the model.
\<close>

definition currentDeps :: "screen \<Rightarrow> deps" where
  "currentDeps s =
     \<lparr>d_videoDataRef = videoDataRef s, d_videoData = videoData s, d_isFocused = isFocused s,
      d_sessionEndTime = sessionEndTime s, d_currentPlaybackTime = currentPlaybackTime s,
      d_isPlayerReady = isPlayerReady s, d_debouncedSaveProgress = debouncedSaveProgress s\<rparr>"

text \<open>\<^verbatim>\<open>useCallback\<close>: a fresh debounced closure when \<^verbatim>\<open>videoData\<close> or \<^verbatim>\<open>isFocused\<close> changed.\<close>

definition render :: "screen \<Rightarrow> screen" where
  "render s =
     (if d_videoDataRef (rendered s) \<noteq> videoDataRef s \<or> d_isFocused (rendered s) \<noteq> isFocused s
      then s\<lparr>savers := savers s @
                [\<lparr>env_videoData = videoData s, env_isFocused = isFocused s, timeoutId = None\<rparr>],
             debouncedSaveProgress := length (savers s)\<rparr>
      else s)"

definition timerDepsChanged :: "screen \<Rightarrow> bool" where
  "timerDepsChanged s =
     (d_sessionEndTime (rendered s) \<noteq> sessionEndTime s
      \<or> d_isFocused (rendered s) \<noteq> isFocused s
      \<or> d_currentPlaybackTime (rendered s) \<noteq> currentPlaybackTime s)"

definition appStateDepsChanged :: "screen \<Rightarrow> bool" where
  "appStateDepsChanged s =
     (d_isPlayerReady (rendered s) \<noteq> isPlayerReady s
      \<or> d_currentPlaybackTime (rendered s) \<noteq> currentPlaybackTime s
      \<or> d_videoDataRef (rendered s) \<noteq> videoDataRef s
      \<or> d_debouncedSaveProgress (rendered s) \<noteq> debouncedSaveProgress s)"

definition focusCleanupDue :: "screen \<Rightarrow> bool" where
  "focusCleanupDue s =
     (d_isFocused (rendered s)
      \<and> (\<not> isFocused s
           \<or> d_currentPlaybackTime (rendered s) \<noteq> currentPlaybackTime s
           \<or> d_videoDataRef (rendered s) \<noteq> videoDataRef s))"

text \<open>
  One commit: the component function runs, then the cleanups of the effects whose
  dependencies changed run with the closures of the previous render, then their bodies
  run with the new ones.
\<close>

definition commit :: "screen \<Rightarrow> screen" where
  "commit s =
     (let s1 = render s;
          s2 = (if timerDepsChanged s1 then timerCleanup s1 else s1);
          s3 = (if appStateDepsChanged s1 then appStateCleanup s2 else s2);
          s4 = (if focusCleanupDue s1 then focusCleanup s3 else s3);
          s5 = (if timerDepsChanged s1 then timerEffect s4 else s4)
      in s5\<lparr>rendered := currentDeps s5\<rparr>)"

section \<open>Handlers\<close>

text \<open>\<^verbatim>\<open>videoData?.duration || 1\<close>.\<close>

definition durationOr1 :: "VideoData option \<Rightarrow> rat" where
  "durationOr1 v = (case v of None \<Rightarrow> 1 | Some d \<Rightarrow> if duration d = 0 then 1 else duration d)"

definition handleFinalSessionEnd :: "rat \<Rightarrow> screen \<Rightarrow> screen" where
  "handleFinalSessionEnd endedAtPosition s =
     (let s1 = callDebounced (debouncedSaveProgress s) endedAtPosition
                 (Some (atLeast98 (percentage endedAtPosition (durationOr1 (videoData s))))) s
      in s1\<lparr>alerts := alerts s1 @ [SessionEndedAlert]\<rparr>)"

definition handleWebViewMessage :: "parsed \<Rightarrow> screen \<Rightarrow> screen" where
  "handleWebViewMessage data s =
     (case data of
        SyntaxError \<Rightarrow> s\<lparr>console := console s @ [ParseError]\<rparr>
      | Parsed message \<Rightarrow>
         (case msgType message of
            PLAYER_READY \<Rightarrow>
              (let s1 = s\<lparr>isPlayerReady := True, console := console s @ [PlayerIsReady]\<rparr> in
               if 0 < currentPlaybackTime s \<and> webViewRef_current s
               then injectJavaScript (SeekTo (currentPlaybackTime s)) s1 else s1)
          | PLAYER_STATE_CHANGE \<Rightarrow>
              if playerState message = Some PLAYING then s
              else if playerState message = Some PAUSED then
                (case currentTime message of
                   None \<Rightarrow> s
                 | Some t \<Rightarrow> callDebounced (debouncedSaveProgress s) t None s)
              else if playerState message = Some ENDED then
                (case currentTime message of
                   None \<Rightarrow> s
                 | Some t \<Rightarrow> callDebounced (debouncedSaveProgress s) t (Some True) s)
              else s
          | TIME_UPDATE \<Rightarrow>
              (case currentTime message of
                 None \<Rightarrow> s
               | Some t \<Rightarrow>
                   callDebounced (debouncedSaveProgress s) t None (s\<lparr>currentPlaybackTime := t\<rparr>))
          | SESSION_END_REQUEST \<Rightarrow>
              (case currentTime message of
                 Some t \<Rightarrow> handleFinalSessionEnd t s
               | None \<Rightarrow> handleFinalSessionEnd (currentPlaybackTime s) s)
          | PLAYER_ERROR \<Rightarrow>
              s\<lparr>console := console s @ [PlayerErrorLogged (errorCode message)],
                alerts := alerts s @ [PlayerErrorAlert (errorCode message)]\<rparr>
          | OTHER_TYPE \<Rightarrow> s))"

definition handleSaveAndExit :: "screen \<Rightarrow> screen" where
  "handleSaveAndExit s =
     (if isPlayerReady s \<and> webViewRef_current s
      then injectJavaScript (PostSessionEndRequest (currentPlaybackTime s)) s
      else handleFinalSessionEnd (currentPlaybackTime s) s)"

definition handleExtendSession :: "screen \<Rightarrow> screen" where
  "handleExtendSession s =
     (if truthy (sessionEndTime s)
      then s\<lparr>sessionEndTime :=
               Some ((case sessionEndTime s of
                        None \<Rightarrow> of_int (now s)
                      | Some prev \<Rightarrow> if prev = 0 then of_int (now s) else prev) + 5 * 60 * 1000),
             alerts := alerts s @ [SessionExtended]\<rparr>
      else case userPrefs s of
             Some defaultSessionDuration \<Rightarrow>
               (let newDuration =
                      (if 0 < defaultSessionDuration then defaultSessionDuration else 0) + 5
                in s\<lparr>sessionEndTime := Some (of_int (now s) + newDuration * 60 * 1000),
                     alerts := alerts s @ [SessionStartedExtended newDuration]\<rparr>)
           | None \<Rightarrow> s)"

text \<open>The \<^verbatim>\<open>AppState\<close> listener (lines 174 to 196), with the closure of its effect.\<close>

definition isAway :: "appStateStatus \<Rightarrow> bool" where
  "isAway a = (a = Inactive \<or> a = Background)"

definition handleAppStateChange :: "appStateStatus \<Rightarrow> screen \<Rightarrow> screen" where
  "handleAppStateChange nextAppState s =
     (let r = rendered s;
          s1 =
            (if isAway (appState s) \<and> nextAppState = Active
             then s\<lparr>console := console s @ [CameToForeground]\<rparr>
             else if isAway nextAppState then
               (let s0 = s\<lparr>console := console s @ [WentToBackground]\<rparr> in
                if d_isPlayerReady r \<and> webViewRef_current s0
                then injectJavaScript PostTimeUpdate s0
                else if 0 < d_currentPlaybackTime r
                then callDebounced (d_debouncedSaveProgress r) (d_currentPlaybackTime r) None s0
                else s0)
             else s)
      in s1\<lparr>appState := nextAppState\<rparr>)"

text \<open>
  \<^verbatim>\<open>fetchInitialData\<close> (lines 88 to 132) with the outcomes of its two reads; the first
  argument tells whether \<^verbatim>\<open>auth.currentUser\<close> is set, the preference is
  \<^verbatim>\<open>profile.preferences?.defaultSessionDuration\<close>.  \<open>gone\<close> records that the screen is no
  longer there: \<^verbatim>\<open>navigation.goBack()\<close> pops it when there is no user, when the video is
  not found and in the \<^verbatim>\<open>catch\<close> (lines 92, 102 and 125); and the first render of the
  loaded screen reads \<^verbatim>\<open>videoData.progress.completionPercentage\<close> (line 444), so it throws
  on a document without \<^verbatim>\<open>progress\<close>.
\<close>

definition fetchInitialData ::
  "bool \<Rightarrow> VideoData fetched \<Rightarrow> rat option fetched \<Rightarrow> screen \<Rightarrow> screen" where
  "fetchInitialData signedIn videoDoc userDoc s =
     (if \<not> signedIn then s\<lparr>alerts := alerts s @ [AuthenticationError], gone := True\<rparr>
      else case videoDoc of
        Threw \<Rightarrow>
          s\<lparr>console := console s @ [FetchError], alerts := alerts s @ [LoadError],
            gone := True, isLoading := False\<rparr>
      | Absent \<Rightarrow>
          s\<lparr>alerts := alerts s @ [VideoNotFound], gone := True, isLoading := False\<rparr>
      | Doc v \<Rightarrow>
         (let s1 = s\<lparr>videoData := Some v, videoDataRef := Suc (videoDataRef s),
                     currentPlaybackTime :=
                       (case progress v of None \<Rightarrow> 0 | Some p \<Rightarrow> lastPosition p)\<rparr>
          in case userDoc of
               Threw \<Rightarrow>
                 s1\<lparr>console := console s1 @ [FetchError], alerts := alerts s1 @ [LoadError],
                    gone := True, isLoading := False\<rparr>
             | Absent \<Rightarrow>
                 s1\<lparr>userPrefs := Some 30,
                    sessionEndTime := Some (of_int (now s1) + 30 * 60 * 1000),
                    isLoading := False,
                    gone := (gone s1 \<or> progress v = None)\<rparr>
             | Doc preference \<Rightarrow>
                 (let defaultDuration =
                        (case preference of None \<Rightarrow> 30 | Some d \<Rightarrow> if d = 0 then 30 else d)
                  in s1\<lparr>userPrefs := Some defaultDuration,
                        sessionEndTime :=
                          (if 0 < defaultDuration
                           then Some (of_int (now s1) + defaultDuration * 60 * 1000)
                           else sessionEndTime s1),
                        isLoading := False,
                        gone := (gone s1 \<or> progress v = None)\<rparr>)))"

section \<open>Events and the passage of time\<close>

datatype event =
  Message parsed
  | SaveAndExit
  | ExtendSession
  | FocusChanged bool
  | AppStateChanged appStateStatus
  | Fetched bool "VideoData fetched" "rat option fetched"
  | StoreOnline bool

fun handle :: "event \<Rightarrow> screen \<Rightarrow> screen" where
  "handle (Message data) s = handleWebViewMessage data s"
| "handle SaveAndExit s = handleSaveAndExit s"
| "handle ExtendSession s = handleExtendSession s"
| "handle (FocusChanged b) s = s\<lparr>isFocused := b\<rparr>"
| "handle (AppStateChanged a) s = handleAppStateChange a s"
| "handle (Fetched signedIn videoDoc userDoc) s = fetchInitialData signedIn videoDoc userDoc s"
| "handle (StoreOnline b) s = s\<lparr>storeOnline := b\<rparr>"

text \<open>An event is handled with the closures of the last render; then React commits.\<close>

definition dispatch :: "event \<Rightarrow> screen \<Rightarrow> screen" where
  "dispatch e s = commit (handle e s)"

text \<open>The first render of the screen for video \<open>vid\<close> at time \<open>t\<close>.\<close>

definition mount :: "string \<Rightarrow> bool \<Rightarrow> int \<Rightarrow> screen" where
  "mount vid focused t =
     (let s = \<lparr>videoId = vid, videoData = None, videoDataRef = 0, userPrefs = None,
               sessionEndTime = None, isLoading = True, gone = False, isPlayerReady = False,
               currentPlaybackTime = 0, sessionTimeRemaining = 0, isFocused = focused,
               sessionTimerIntervalRef = None, appState = Active,
               savers = [\<lparr>env_videoData = None, env_isFocused = focused, timeoutId = None\<rparr>],
               debouncedSaveProgress = 0,
               rendered = \<lparr>d_videoDataRef = 0, d_videoData = None, d_isFocused = focused,
                           d_sessionEndTime = None, d_currentPlaybackTime = 0,
                           d_isPlayerReady = False, d_debouncedSaveProgress = 0\<rparr>,
               now = t, storeOnline = True, storeWrites = [], injected = [], alerts = [],
               console = []\<rparr>
      in s)"

text \<open>The timeout of closure \<open>i\<close> fires: its function runs with the arguments of the last call.\<close>

definition fireSaver :: "nat \<Rightarrow> screen \<Rightarrow> screen" where
  "fireSaver i s =
     (if i < length (savers s) then
        (case timeoutId (savers s ! i) of
           None \<Rightarrow> s
         | Some (due, position, isCompleted) \<Rightarrow>
             commit (saveProgress (savers s ! i) position isCompleted
                       (s\<lparr>savers := (savers s)[i := (savers s ! i)\<lparr>timeoutId := None\<rparr>]\<rparr>)))
      else s)"

text \<open>
  A tick of \<^verbatim>\<open>setInterval(updateTimer, 1000)\<close>: the next tick is scheduled, and
  \<^verbatim>\<open>updateTimer\<close> of the effect's closure runs.
\<close>

definition tick :: "screen \<Rightarrow> screen" where
  "tick s =
     (case sessionTimerIntervalRef s of
        None \<Rightarrow> s
      | Some due \<Rightarrow>
         (case d_sessionEndTime (rendered s) of
            None \<Rightarrow> s
          | Some endAt \<Rightarrow>
              updateTimer endAt (d_currentPlaybackTime (rendered s))
                (s\<lparr>sessionTimerIntervalRef := Some (due + 1000)\<rparr>)))"

datatype timer = SaverTimeout nat | SessionInterval

fun pendingFrom :: "nat \<Rightarrow> saver list \<Rightarrow> (int \<times> timer) list" where
  "pendingFrom i [] = []"
| "pendingFrom i (c # cs) =
     (case timeoutId c of
        None \<Rightarrow> pendingFrom (Suc i) cs
      | Some (due, args) \<Rightarrow> (due, SaverTimeout i) # pendingFrom (Suc i) cs)"

definition timers :: "screen \<Rightarrow> (int \<times> timer) list" where
  "timers s =
     pendingFrom 0 (savers s) @
     (case sessionTimerIntervalRef s of None \<Rightarrow> [] | Some due \<Rightarrow> [(due, SessionInterval)])"

fun earliest :: "(int \<times> timer) list \<Rightarrow> (int \<times> timer) option" where
  "earliest [] = None"
| "earliest ((due, k) # ts) =
     (case earliest ts of
        None \<Rightarrow> Some (due, k)
      | Some (due', k') \<Rightarrow> if due' < due then Some (due', k') else Some (due, k))"

fun fire :: "timer \<Rightarrow> screen \<Rightarrow> screen" where
  "fire (SaverTimeout i) s = fireSaver i s"
| "fire SessionInterval s = tick s"

text \<open>
  The clock advances to \<open>until\<close> with no event arriving; every timer that falls due on the
  way fires at its due time, the earliest first.  The first argument bounds the number
  of timers fired: \<open>None\<close> means the bound was reached before the clock got to \<open>until\<close>.
\<close>

fun elapse :: "nat \<Rightarrow> int \<Rightarrow> screen \<Rightarrow> screen option" where
  "elapse n until s =
     (case earliest (timers s) of
        None \<Rightarrow> Some (s\<lparr>now := max (now s) until\<rparr>)
      | Some (due, k) \<Rightarrow>
          if until < due then Some (s\<lparr>now := max (now s) until\<rparr>)
          else (case n of
                  0 \<Rightarrow> None
                | Suc m \<Rightarrow> elapse m until (fire k (s\<lparr>now := max (now s) due\<rparr>))))"

text \<open>
  The clock reaches the due time of the timeout of closure \<open>i\<close> and that timeout fires:
  the step \<open>elapse\<close> takes when this timeout is the earliest timer.
\<close>

definition windowCloses :: "nat \<Rightarrow> screen \<Rightarrow> screen" where
  "windowCloses i s =
     (if i < length (savers s) then
        (case timeoutId (savers s ! i) of
           None \<Rightarrow> s
         | Some (due, args) \<Rightarrow> fireSaver i (s\<lparr>now := max (now s) due\<rparr>))
      else s)"

text \<open>Events arriving at given times, the timers running in between.\<close>

fun run :: "nat \<Rightarrow> (int \<times> event) list \<Rightarrow> screen \<Rightarrow> screen option" where
  "run n [] s = Some s"
| "run n ((t, e) # es) s =
     (case elapse n t s of None \<Rightarrow> None | Some s' \<Rightarrow> run n es (dispatch e s'))"

definition runUntil :: "nat \<Rightarrow> (int \<times> event) list \<Rightarrow> int \<Rightarrow> screen \<Rightarrow> screen option" where
  "runUntil n es until s = (case run n es s of None \<Rightarrow> None | Some s' \<Rightarrow> elapse n until s')"

section \<open>Messages of the embedded page and well-formed states\<close>

text \<open>
  The messages the page posts (lines 366 to 391): \<^verbatim>\<open>onPlayerReady\<close>,
  \<^verbatim>\<open>onPlayerStateChange\<close>, \<^verbatim>\<open>sendTimeUpdate\<close>, and the reply to an injected
  \<open>PostSessionEndRequest\<close>.
\<close>

definition Ready :: parsed where
  "Ready = Parsed \<lparr>msgType = PLAYER_READY, currentTime = None, playerState = None,
                    errorCode = None\<rparr>"

definition StateChanged :: "int \<Rightarrow> rat \<Rightarrow> parsed" where
  "StateChanged st t =
     Parsed \<lparr>msgType = PLAYER_STATE_CHANGE, currentTime = Some t, playerState = Some st,
             errorCode = None\<rparr>"

definition TimeUpdate :: "rat \<Rightarrow> parsed" where
  "TimeUpdate t =
     Parsed \<lparr>msgType = TIME_UPDATE, currentTime = Some t, playerState = None,
             errorCode = None\<rparr>"

definition SessionEndRequested :: "rat \<Rightarrow> parsed" where
  "SessionEndRequested t =
     Parsed \<lparr>msgType = SESSION_END_REQUEST, currentTime = Some t, playerState = None,
             errorCode = None\<rparr>"

text \<open>
  A state between two events: the last render is committed, and the debounced closure in
  use is the one created for the current \<^verbatim>\<open>videoData\<close> and \<^verbatim>\<open>isFocused\<close>.
\<close>

definition settled :: "screen \<Rightarrow> bool" where
  "settled s = (rendered s = currentDeps s)"

definition coherent :: "screen \<Rightarrow> bool" where
  "coherent s =
     (settled s \<and> debouncedSaveProgress s < length (savers s)
      \<and> env_videoData (savers s ! debouncedSaveProgress s) = videoData s
      \<and> env_isFocused (savers s ! debouncedSaveProgress s) = isFocused s)"

text \<open>
  A stored video of the given duration and last position, and the screen once
  \<^verbatim>\<open>fetchInitialData\<close> has loaded it for a signed-in user whose preferred session
  length is \<open>d\<close> minutes; the screen is focused and was mounted at time 0.
\<close>

definition video :: "rat \<Rightarrow> rat \<Rightarrow> VideoData" where
  "video len p =
     \<lparr>duration = len,
      progress = Some \<lparr>lastPosition = p, completionPercentage = Finite 0, completed = False,
                       lastUpdated = 0\<rparr>\<rparr>"

definition session :: "VideoData \<Rightarrow> rat \<Rightarrow> screen" where
  "session v d = dispatch (Fetched True (Doc v) (Doc (Some d))) (mount ''video-1'' True 0)"

text \<open>
  Everything a commit leaves alone: the state set only by handlers and timer callbacks,
  the clock and the log of store writes.
\<close>

definition hooks ::
  "screen \<Rightarrow> string \<times> VideoData option \<times> nat \<times> rat option \<times> rat option \<times> bool \<times> bool \<times> rat
     \<times> bool \<times> appStateStatus \<times> int \<times> bool \<times> (string \<times> VideoProgress) list \<times> alert list
     \<times> bool" where
  "hooks s =
     (videoId s, videoData s, videoDataRef s, userPrefs s, sessionEndTime s, isLoading s,
      isPlayerReady s, currentPlaybackTime s, isFocused s, appState s, now s, storeOnline s,
      storeWrites s, alerts s, gone s)"

text \<open>
  What decides which debounced closure a handler calls and what that closure captured;
  and the statement that the closure in use captured the current \<^verbatim>\<open>videoData\<close> and
  \<^verbatim>\<open>isFocused\<close>.
\<close>

definition closures ::
  "screen \<Rightarrow> (VideoData option \<times> bool) list \<times> nat \<times> VideoData option \<times> nat \<times> bool" where
  "closures s =
     (map (\<lambda>c. (env_videoData c, env_isFocused c)) (savers s), debouncedSaveProgress s,
      videoData s, videoDataRef s, isFocused s)"

definition closureInUse :: "screen \<Rightarrow> bool" where
  "closureInUse s =
     (debouncedSaveProgress s < length (savers s)
      \<and> env_videoData (savers s ! debouncedSaveProgress s) = videoData s
      \<and> env_isFocused (savers s ! debouncedSaveProgress s) = isFocused s)"

text \<open>
  The controls of the screen are rendered, so that its buttons can be pressed, once the
  loading is over and the video is there (line 318), on a screen that is still there.
\<close>

definition pressable :: "screen \<Rightarrow> bool" where
  "pressable s = (\<not> gone s \<and> \<not> isLoading s \<and> videoData s \<noteq> None)"

text \<open>
  The timer is idle with preferences loaded only when the default session length is
  negative: \<^verbatim>\<open>fetchInitialData\<close> starts the timer for every positive length, and reads a
  length of 0 as 30.  And it is idle without preferences only while the screen cannot be
  pressed.
\<close>

definition idleWithoutDefault :: "screen \<Rightarrow> bool" where
  "idleWithoutDefault s =
     (case sessionEndTime s of
        Some e \<Rightarrow> True
      | None \<Rightarrow>
         (case userPrefs s of
            None \<Rightarrow> gone s \<or> isLoading s \<or> videoData s = None
          | Some d \<Rightarrow> d < 0))"

text \<open>
  The states of the screen: the first render, then any events, with any amount of time
  between them.
\<close>

inductive reachable :: "screen \<Rightarrow> bool" where
  mounted: "reachable (mount vid focused t)"
| event: "reachable s \<Longrightarrow> reachable (dispatch e s)"
| time: "reachable s \<Longrightarrow> elapse n until s = Some s' \<Longrightarrow> reachable s'"

section \<open>Commits\<close>

lemma currentDeps_rendered [simp]: "currentDeps (s\<lparr>rendered := r\<rparr>) = currentDeps s"
  by (simp add: currentDeps_def)

lemma currentDeps_interval [simp]:
  "currentDeps (s\<lparr>sessionTimerIntervalRef := x\<rparr>) = currentDeps s"
  by (simp add: currentDeps_def)

lemma render_settled: "settled s \<Longrightarrow> render s = s"
  by (simp add: settled_def render_def currentDeps_def)

lemma timerDepsChanged_settled: "settled s \<Longrightarrow> \<not> timerDepsChanged s"
  by (simp add: settled_def timerDepsChanged_def currentDeps_def)

lemma appStateDepsChanged_settled: "settled s \<Longrightarrow> \<not> appStateDepsChanged s"
  by (simp add: settled_def appStateDepsChanged_def currentDeps_def)

lemma focusCleanupDue_settled: "settled s \<Longrightarrow> \<not> focusCleanupDue s"
  by (simp add: settled_def focusCleanupDue_def currentDeps_def)

text \<open>With no dependency changed, a commit runs no effect.\<close>

lemma commit_settled: "settled s \<Longrightarrow> commit s = s"
  by (simp add: commit_def render_settled timerDepsChanged_settled appStateDepsChanged_settled
      focusCleanupDue_settled)
     (simp add: settled_def)

lemma settled_commit: "settled (commit s)"
  by (simp add: settled_def commit_def Let_def)

lemma settled_callDebounced [simp]: "settled (callDebounced i p c s) = settled s"
  by (simp add: settled_def callDebounced_def currentDeps_def)

lemma settled_savers [simp]: "settled (s\<lparr>savers := x\<rparr>) = settled s"
  by (simp add: settled_def currentDeps_def)

lemma settled_alerts [simp]: "settled (s\<lparr>alerts := a\<rparr>) = settled s"
  by (simp add: settled_def currentDeps_def)

lemma hooks_callDebounced [simp]: "hooks (callDebounced i p c s) = hooks s"
  by (simp add: hooks_def callDebounced_def)

lemma hooks_injectJavaScript [simp]: "hooks (injectJavaScript c s) = hooks s"
  by (simp add: hooks_def injectJavaScript_def)

lemma hooks_interval [simp]: "hooks (s\<lparr>sessionTimerIntervalRef := x\<rparr>) = hooks s"
  by (simp add: hooks_def)

lemma hooks_rendered [simp]: "hooks (s\<lparr>rendered := x\<rparr>) = hooks s"
  by (simp add: hooks_def)

lemma hooks_updateTimer [simp]: "hooks (updateTimer e f s) = hooks s"
proof -
  have "hooks (x\<lparr>sessionTimeRemaining := r\<rparr>) = hooks x" for x r
    by (simp add: hooks_def)
  moreover have "hooks (x\<lparr>console := l\<rparr>) = hooks x" for x l
    by (simp add: hooks_def)
  ultimately show ?thesis
    by (simp add: updateTimer_def Let_def)
qed

lemma hooks_render [simp]: "hooks (render s) = hooks s"
  by (simp add: hooks_def render_def)

lemma hooks_timerCleanup [simp]: "hooks (timerCleanup s) = hooks s"
  by (simp add: hooks_def timerCleanup_def)

lemma hooks_appStateCleanup [simp]: "hooks (appStateCleanup s) = hooks s"
  by (simp add: appStateCleanup_def Let_def)

lemma hooks_focusCleanup [simp]: "hooks (focusCleanup s) = hooks s"
  by (simp add: hooks_def focusCleanup_def Let_def)

lemma savers_focusCleanup [simp]: "savers (focusCleanup s) = savers s"
  by (simp add: focusCleanup_def Let_def)

lemma currentDeps_focusCleanup [simp]: "currentDeps (focusCleanup s) = currentDeps s"
  by (simp add: focusCleanup_def Let_def currentDeps_def)

lemma hooks_timerEffect [simp]: "hooks (timerEffect s) = hooks s"
  by (simp add: timerEffect_def Let_def split: option.split)

lemma hooks_commit: "hooks (commit s) = hooks s"
  by (simp add: commit_def Let_def)

lemma storeWrites_commit [simp]: "storeWrites (commit s) = storeWrites s"
  using hooks_commit [of s] by (simp add: hooks_def)

lemma sessionEndTime_commit [simp]: "sessionEndTime (commit s) = sessionEndTime s"
  using hooks_commit [of s] by (simp add: hooks_def)

lemma savers_updateTimer [simp]: "savers (updateTimer e f s) = savers s"
  by (simp add: updateTimer_def injectJavaScript_def Let_def)

lemma savers_timerEffect [simp]: "savers (timerEffect s) = savers s"
  by (simp add: timerEffect_def Let_def split: option.split)

lemma currentDeps_updateTimer [simp]: "currentDeps (updateTimer e f s) = currentDeps s"
  by (simp add: updateTimer_def injectJavaScript_def Let_def currentDeps_def)

lemma currentDeps_timerEffect [simp]: "currentDeps (timerEffect s) = currentDeps s"
  by (simp add: timerEffect_def Let_def split: option.split)

lemma currentDeps_timerCleanup [simp]: "currentDeps (timerCleanup s) = currentDeps s"
  by (simp add: timerCleanup_def currentDeps_def)

text \<open>When only \<^verbatim>\<open>sessionEndTime\<close> changed, a commit re-runs the timer effect and nothing else.\<close>

lemma commit_timer_only:
  assumes "rendered s = (currentDeps s)\<lparr>d_sessionEndTime := old\<rparr>"
    and "old \<noteq> sessionEndTime s"
  shows "commit s = (timerEffect (timerCleanup s))\<lparr>rendered := currentDeps s\<rparr>"
proof -
  have r: "render s = s"
    using assms(1) by (simp add: render_def currentDeps_def)
  have t: "timerDepsChanged s"
    using assms by (simp add: timerDepsChanged_def currentDeps_def)
  have a: "\<not> appStateDepsChanged s"
    using assms(1) by (simp add: appStateDepsChanged_def currentDeps_def)
  have f: "\<not> focusCleanupDue s"
    using assms(1) by (simp add: focusCleanupDue_def currentDeps_def)
  show ?thesis
    by (simp add: commit_def r t a f)
qed

text \<open>
  Every run of \<^verbatim>\<open>updateTimer\<close> derives the remaining seconds from the end time and the
  clock; nothing is counted down in memory.
\<close>

lemma sessionTimeRemaining_updateTimer:
  "sessionTimeRemaining (updateTimer endAt f s) = max 0 \<lfloor>(endAt - of_int (now s)) / 1000\<rfloor>"
  by (simp add: updateTimer_def injectJavaScript_def Let_def)

lemma sessionTimeRemaining_timerEffect:
  "sessionEndTime s = Some endAt \<Longrightarrow> endAt \<noteq> 0 \<Longrightarrow> isFocused s \<Longrightarrow>
   sessionTimeRemaining (timerEffect s) = max 0 \<lfloor>(endAt - of_int (now s)) / 1000\<rfloor>"
  by (simp add: timerEffect_def sessionTimeRemaining_updateTimer)

section \<open>Rounding to a double\<close>

lemma pow2_powi: "pow2 k = 2 powi k"
  by (simp add: pow2_def power_int_def field_simps)

lemma pow2_pos: "0 < pow2 k"
  by (simp add: pow2_def)

lemma pow2_mono: "i \<le> j \<Longrightarrow> pow2 i \<le> pow2 j"
  by (simp add: pow2_powi power_int_increasing)

lemma pow2_strict_mono: "i < j \<Longrightarrow> pow2 i < pow2 j"
  by (simp add: pow2_powi power_int_strict_increasing)

lemma pow2_diff: "pow2 (i - j) = pow2 i / pow2 j"
  by (simp add: pow2_powi power_int_diff)

lemma pow2_nat: "0 \<le> k \<Longrightarrow> 2 ^ nat k = pow2 k"
  by (simp add: pow2_def)

text \<open>
  \<open>floorLog2\<close> finds the binade of a positive rational: the difference of the bit lengths
  of numerator and denominator is the exponent or one more.
\<close>

lemma floorLog2_bounds:
  assumes "0 < a"
  shows "pow2 (floorLog2 a) \<le> a \<and> a < pow2 (floorLog2 a + 1)"
proof -
  obtain p q where pq: "quotient_of a = (p, q)"
    by (cases "quotient_of a")
  then have q: "0 < q" and a: "a = of_int p / of_int q"
    by (simp_all add: quotient_of_denom_pos quotient_of_div)
  from a assms q have p: "0 < p"
    by (simp add: zero_less_divide_iff)
  define bp where "bp = bitlen p"
  define bq where "bq = bitlen q"
  have bp: "2 ^ nat (bp - 1) \<le> p" "p < 2 ^ nat bp" and bq: "2 ^ nat (bq - 1) \<le> q" "q < 2 ^ nat bq"
    using bitlen_bounds [OF p] bitlen_bounds [OF q] by (simp_all add: bp_def bq_def)
  have bp1: "1 \<le> bp" and bq1: "1 \<le> bq"
    using p q by (simp_all add: bp_def bq_def bitlen_ge_iff_power)
  have rp: "pow2 (bp - 1) \<le> of_int p" "of_int p < pow2 bp"
  proof -
    have "rat_of_int (2 ^ nat (bp - 1)) \<le> of_int p"
      using bp(1) by (simp only: of_int_le_iff)
    then show "pow2 (bp - 1) \<le> of_int p"
      using bp1 by (simp add: pow2_nat [symmetric])
    have "rat_of_int p < of_int (2 ^ nat bp)"
      using bp(2) by (simp only: of_int_less_iff)
    then show "of_int p < pow2 bp"
      using bp1 by (simp add: pow2_nat [symmetric])
  qed
  have rq: "pow2 (bq - 1) \<le> of_int q" "of_int q < pow2 bq"
  proof -
    have "rat_of_int (2 ^ nat (bq - 1)) \<le> of_int q"
      using bq(1) by (simp only: of_int_le_iff)
    then show "pow2 (bq - 1) \<le> of_int q"
      using bq1 by (simp add: pow2_nat [symmetric])
    have "rat_of_int q < of_int (2 ^ nat bq)"
      using bq(2) by (simp only: of_int_less_iff)
    then show "of_int q < pow2 bq"
      using bq1 by (simp add: pow2_nat [symmetric])
  qed
  have qpos: "(0::rat) < of_int q"
    using q by simp
  have up: "a < pow2 (bp - bq + 1)"
  proof -
    have "a < pow2 bp / of_int q"
      unfolding a using rp(2) qpos by (simp add: divide_strict_right_mono)
    also have "\<dots> \<le> pow2 bp / pow2 (bq - 1)"
      using rq(1) pow2_pos [of "bq - 1"] pow2_pos [of bp] by (simp add: frac_le)
    also have "\<dots> = pow2 (bp - (bq - 1))"
      by (simp add: pow2_diff)
    finally show ?thesis
      by (simp add: algebra_simps)
  qed
  have low: "pow2 (bp - bq - 1) < a"
  proof -
    have "pow2 (bp - bq - 1) = pow2 (bp - 1) / pow2 bq"
      using pow2_diff [of "bp - 1" bq] by (simp add: algebra_simps)
    also have "\<dots> < pow2 (bp - 1) / of_int q"
      using rq(2) qpos pow2_pos [of "bp - 1"] by (simp add: frac_less2)
    also have "\<dots> \<le> a"
      unfolding a using rp(1) qpos by (simp add: divide_right_mono)
    finally show ?thesis .
  qed
  have f: "floorLog2 a = (if pow2 (bp - bq) \<le> a then bp - bq else bp - bq - 1)"
    by (simp add: floorLog2_def pq bp_def bq_def Let_def)
  show ?thesis
  proof (cases "pow2 (bp - bq) \<le> a")
    case True
    then show ?thesis using up by (simp add: f)
  next
    case False
    then show ?thesis using low by (simp add: f)
  qed
qed

lemma floorLog2_eq:
  assumes "pow2 e \<le> a" and "a < pow2 (e + 1)"
  shows "floorLog2 a = e"
proof -
  have "0 < a"
    using assms(1) pow2_pos [of e] by simp
  then have b: "pow2 (floorLog2 a) \<le> a" "a < pow2 (floorLog2 a + 1)"
    using floorLog2_bounds by simp_all
  have "\<not> floorLog2 a < e"
  proof
    assume "floorLog2 a < e"
    then have "pow2 (floorLog2 a + 1) \<le> pow2 e"
      by (simp add: pow2_mono)
    with b(2) assms(1) show False by simp
  qed
  moreover have "\<not> e < floorLog2 a"
  proof
    assume "e < floorLog2 a"
    then have "pow2 (e + 1) \<le> pow2 (floorLog2 a)"
      by (simp add: pow2_mono)
    with b(1) assms(2) show False by simp
  qed
  ultimately show ?thesis by simp
qed

lemma roundHalfEven_eq:
  assumes "of_int m - 1 / 2 < r" and "r < of_int m + 1 / 2"
  shows "roundHalfEven r = m"
proof (cases "of_int m \<le> r")
  case True
  then have "\<lfloor>r\<rfloor> = m"
    using assms(2) by (intro floor_unique) simp_all
  then show ?thesis
    using assms(2) by (simp add: roundHalfEven_def Let_def)
next
  case False
  then have "\<lfloor>r\<rfloor> = m - 1"
    using assms(1) by (intro floor_unique) simp_all
  then show ?thesis
    using assms(1) by (simp add: roundHalfEven_def Let_def)
qed

text \<open>
  The double of a positive rational in the normal range: with \<open>2^e \<le> x < 2^(e+1)\<close>, it is
  \<open>m * 2^(e-52)\<close> for the whole number \<open>m\<close> nearest to \<open>x / 2^(e-52)\<close>.
\<close>

lemma toDouble_eq:
  assumes "pow2 e \<le> x" and "x < pow2 (e + 1)" and "- 1022 \<le> e" and "e \<le> 1022"
    and "of_int m - 1 / 2 < x / pow2 (e - 52)" and "x / pow2 (e - 52) < of_int m + 1 / 2"
  shows "toDouble x = Finite (of_int m * pow2 (e - 52))"
proof -
  have x: "0 < x"
    using assms(1) pow2_pos [of e] by simp
  have fl: "floorLog2 x = e"
    using assms(1,2) by (rule floorLog2_eq)
  have mx: "max e (- 1022) = e"
    using assms(3) by simp
  have r: "roundHalfEven (x / pow2 (e - 52)) = m"
    using assms(5,6) by (rule roundHalfEven_eq)
  have "x / pow2 (e - 52) < pow2 (e + 1) / pow2 (e - 52)"
    using assms(2) pow2_pos [of "e - 52"] by (simp add: divide_strict_right_mono)
  also have "\<dots> = pow2 53"
    using pow2_diff [of "e + 1" "e - 52"] by simp
  also have "\<dots> = 2 ^ 53"
    by (simp add: pow2_def)
  finally have "rat_of_int m - 1 / 2 < 2 ^ 53"
    using assms(5) by simp
  then have "rat_of_int m < of_int (2 ^ 53 + 1)"
    by simp
  then have "m < 2 ^ 53 + 1"
    by (simp only: of_int_less_iff)
  then have "m \<le> 2 ^ 53"
    by simp
  then have "rat_of_int m \<le> of_int (2 ^ 53)"
    by (simp only: of_int_le_iff)
  then have "of_int m * pow2 (e - 52) \<le> 2 ^ 53 * pow2 (e - 52)"
    using pow2_pos [of "e - 52"] by (simp add: mult_right_mono)
  also have "2 ^ 53 * pow2 (e - 52) = pow2 53 * pow2 (e - 52)"
    by (simp add: pow2_def)
  also have "\<dots> = pow2 (e + 1)"
    using pow2_diff [of "e + 1" "e - 52"] pow2_pos [of "e - 52"] by (simp add: field_simps)
  also have "\<dots> < pow2 1024"
    using assms(4) by (simp add: pow2_strict_mono)
  finally have v: "\<not> pow2 1024 \<le> of_int m * pow2 (e - 52)"
    by simp
  show ?thesis
    using x v by (simp add: toDouble_def Let_def fl mx r)
qed


text \<open>
  Rounding to a double keeps the sign, so the percentage of a position that is not
  negative, in a duration that is positive, lies between 0 and 100 once it is capped.
\<close>

lemma roundHalfEven_nonneg: "0 \<le> r \<Longrightarrow> 0 \<le> roundHalfEven r"
  by (simp add: roundHalfEven_def Let_def)

lemma toDouble_nonneg:
  assumes "0 \<le> x"
  shows "toDouble x = PosInfinity \<or> (\<exists>v. toDouble x = Finite v \<and> 0 \<le> v)"
proof (cases "x = 0")
  case True
  then show ?thesis by (simp add: toDouble_def)
next
  case False
  with assms have p: "0 < x" by simp
  define ulp where "ulp = pow2 (max (floorLog2 \<bar>x\<bar>) (- 1022) - 52)"
  have u: "0 < ulp" unfolding ulp_def by (rule pow2_pos)
  then have "0 \<le> \<bar>x\<bar> / ulp" by simp
  then have "0 \<le> roundHalfEven (\<bar>x\<bar> / ulp)" by (rule roundHalfEven_nonneg)
  then have "0 \<le> of_int (roundHalfEven (\<bar>x\<bar> / ulp)) * ulp" using u by simp
  then show ?thesis using p by (simp add: toDouble_def Let_def ulp_def)
qed

lemma percentage_nonneg:
  assumes "0 \<le> position" and "0 < d"
  shows "percentage position d = PosInfinity \<or> (\<exists>v. percentage position d = Finite v \<and> 0 \<le> v)"
proof -
  have "0 \<le> position / d" using assms by simp
  then consider "toDouble (position / d) = PosInfinity"
    | q where "toDouble (position / d) = Finite q" and "0 \<le> q"
    using toDouble_nonneg by blast
  then show ?thesis
  proof cases
    case 1
    then show ?thesis by (simp add: percentage_def)
  next
    case 2
    then have "0 \<le> q * 100" by simp
    then have "toDouble (q * 100) = PosInfinity \<or> (\<exists>v. toDouble (q * 100) = Finite v \<and> 0 \<le> v)"
      by (rule toDouble_nonneg)
    then show ?thesis using 2 by (simp add: percentage_def)
  qed
qed

lemma min100_percentage:
  assumes "0 \<le> position" and "0 < d"
  shows "\<exists>x. min100 (percentage position d) = Finite x \<and> 0 \<le> x \<and> x \<le> 100"
  using percentage_nonneg [OF assms] by auto

text \<open>
  \<open>toFixed1\<close> rounds to one decimal place: the result is the double of a whole number of
  tenths, which is at most one twentieth away from the argument.
\<close>

lemma toFixed1_nearest:
  assumes "\<bar>x\<bar> < 10 ^ 21"
  shows "\<exists>n::int. toFixed1 (Finite x) = toDouble (of_int n / 10) \<and> \<bar>of_int n / 10 - x\<bar> \<le> 1 / 20"
proof (cases "x < 0")
  case False
  define n where "n = \<lfloor>x * 10 + 1 / 2\<rfloor>"
  have "of_int n \<le> x * 10 + 1 / 2" and "x * 10 + 1 / 2 < of_int n + 1"
    unfolding n_def by linarith+
  then have d: "\<bar>of_int n / 10 - x\<bar> \<le> 1 / 20"
    by linarith
  have e: "toFixed1 (Finite x) = toDouble (of_int n / 10)"
    using assms False by (simp add: n_def)
  show ?thesis
    using e d by blast
next
  case True
  define n where "n = \<lfloor>- x * 10 + 1 / 2\<rfloor>"
  have "of_int n \<le> - x * 10 + 1 / 2" and "- x * 10 + 1 / 2 < of_int n + 1"
    unfolding n_def by linarith+
  then have "\<bar>- (of_int n / 10) - x\<bar> \<le> 1 / 20"
    by linarith
  then have d: "\<bar>of_int (- n) / 10 - x\<bar> \<le> 1 / 20"
    by simp
  have e: "toFixed1 (Finite x) = toDouble (of_int (- n) / 10)"
    using assms True by (simp add: n_def)
  show ?thesis
    using e d by blast
qed

lemma rounded_percentage:
  assumes "0 \<le> position" and "0 < d"
  shows "\<exists>x (n::int). min100 (percentage position d) = Finite x \<and> 0 \<le> x \<and> x \<le> 100
           \<and> toFixed1 (min100 (percentage position d)) = toDouble (of_int n / 10)
           \<and> \<bar>of_int n / 10 - x\<bar> \<le> 1 / 20"
proof -
  from min100_percentage [OF assms] obtain x
    where x: "min100 (percentage position d) = Finite x" "0 \<le> x" "x \<le> 100"
    by blast
  then have "\<bar>x\<bar> < 10 ^ 21" by simp
  from toFixed1_nearest [OF this] obtain n :: int
    where "toFixed1 (Finite x) = toDouble (of_int n / 10)" "\<bar>of_int n / 10 - x\<bar> \<le> 1 / 20"
    by blast
  with x show ?thesis by auto
qed

lemma toFixed1_eq:
  assumes "0 \<le> x" and "x < 10 ^ 21"
    and "of_int n \<le> x * 10 + 1 / 2" and "x * 10 + 1 / 2 < of_int n + 1"
  shows "toFixed1 (Finite x) = toDouble (of_int n / 10)"
proof -
  have "\<lfloor>x * 10 + 1 / 2\<rfloor> = n"
    using assms(3,4) by (rule floor_unique)
  then show ?thesis
    using assms(1,2) by simp
qed

section \<open>The percentages of the examples\<close>

text \<open>
  The doubles that line 65 computes for the positions and durations used below, each
  obtained from \<open>toDouble_eq\<close> with its exponent and significand, and what
  \<^verbatim>\<open>toFixed(1)\<close> makes of them.  At 23 s of 80 s the quotient 0.2875 is not a double, and
  the product of its double with 100 is the double just below 28.75, so \<^verbatim>\<open>toFixed(1)\<close>
  gives 28.7; at 595 s of 600 s it gives 99.2.
\<close>

lemma percentage_23_80:
  "percentage 23 80 = Finite (8092405580431359 / 281474976710656)"
proof -
  have a: "toDouble (23 / 80) = Finite (2589569785738035 / 9007199254740992)"
    using toDouble_eq [of "- 2" "23 / 80" 5179139571476070]
    by (simp add: pow2_def)
  have b: "toDouble ((2589569785738035 / 9007199254740992) * 100) =
           Finite (8092405580431359 / 281474976710656)"
    using toDouble_eq [of 4 "(2589569785738035 / 9007199254740992) * 100" 8092405580431359]
    by (simp add: pow2_def)
  show ?thesis
    unfolding percentage_def a times100.simps b by (rule refl)
qed

lemma toFixed1_23_80: "toFixed1 (min100 (percentage 23 80)) = toDouble (287 / 10)"
  unfolding percentage_23_80
  using toFixed1_eq [of "8092405580431359 / 281474976710656" 287] by simp

lemma atLeast98_23_80:
  "atLeast98 (min100 (percentage 23 80)) = False" "atLeast98 (percentage 23 80) = False"
  unfolding percentage_23_80 by simp_all

lemma percentage_595_600:
  "percentage 595 600 = Finite (6978233797618347 / 70368744177664)"
proof -
  have a: "toDouble (595 / 600) = Finite (2233034815237871 / 2251799813685248)"
    using toDouble_eq [of "- 1" "595 / 600" 8932139260951484]
    by (simp add: pow2_def)
  have b: "toDouble ((2233034815237871 / 2251799813685248) * 100) =
           Finite (6978233797618347 / 70368744177664)"
    using toDouble_eq [of 6 "(2233034815237871 / 2251799813685248) * 100" 6978233797618347]
    by (simp add: pow2_def)
  show ?thesis
    unfolding percentage_def a times100.simps b by (rule refl)
qed

lemma toFixed1_595_600: "toFixed1 (min100 (percentage 595 600)) = toDouble (992 / 10)"
  unfolding percentage_595_600
  using toFixed1_eq [of "6978233797618347 / 70368744177664" 992] by simp

lemma atLeast98_595_600:
  "atLeast98 (min100 (percentage 595 600)) = True" "atLeast98 (percentage 595 600) = True"
  unfolding percentage_595_600 by simp_all

lemma percentage_37_5_600:
  "percentage (75 / 2) 600 = Finite (25 / 4)"
proof -
  have a: "toDouble ((75 / 2) / 600) = Finite (1 / 16)"
    using toDouble_eq [of "- 4" "(75 / 2) / 600" 4503599627370496]
    by (simp add: pow2_def)
  have b: "toDouble ((1 / 16) * 100) =
           Finite (25 / 4)"
    using toDouble_eq [of 2 "(1 / 16) * 100" 7036874417766400]
    by (simp add: pow2_def)
  show ?thesis
    unfolding percentage_def a times100.simps b by (rule refl)
qed

lemma toFixed1_37_5_600: "toFixed1 (min100 (percentage (75 / 2) 600)) = toDouble (63 / 10)"
  unfolding percentage_37_5_600
  using toFixed1_eq [of "25 / 4" 63] by simp

lemma atLeast98_37_5_600:
  "atLeast98 (min100 (percentage (75 / 2) 600)) = False" "atLeast98 (percentage (75 / 2) 600) = False"
  unfolding percentage_37_5_600 by simp_all

lemma percentage_100_875_600:
  "percentage (807 / 8) 600 = Finite (269 / 16)"
proof -
  have a: "toDouble ((807 / 8) / 600) = Finite (6057341498813317 / 36028797018963968)"
    using toDouble_eq [of "- 3" "(807 / 8) / 600" 6057341498813317]
    by (simp add: pow2_def)
  have b: "toDouble ((6057341498813317 / 36028797018963968) * 100) =
           Finite (269 / 16)"
    using toDouble_eq [of 4 "(6057341498813317 / 36028797018963968) * 100" 4732298045947904]
    by (simp add: pow2_def)
  show ?thesis
    unfolding percentage_def a times100.simps b by (rule refl)
qed


lemma atLeast98_100_875_600:
  "atLeast98 (min100 (percentage (807 / 8) 600)) = False" "atLeast98 (percentage (807 / 8) 600) = False"
  unfolding percentage_100_875_600 by simp_all

lemma percentage_100_600:
  "percentage 100 600 = Finite (2345624805922133 / 140737488355328)"
proof -
  have a: "toDouble (100 / 600) = Finite (6004799503160661 / 36028797018963968)"
    using toDouble_eq [of "- 3" "100 / 600" 6004799503160661]
    by (simp add: pow2_def)
  have b: "toDouble ((6004799503160661 / 36028797018963968) * 100) =
           Finite (2345624805922133 / 140737488355328)"
    using toDouble_eq [of 4 "(6004799503160661 / 36028797018963968) * 100" 4691249611844266]
    by (simp add: pow2_def)
  show ?thesis
    unfolding percentage_def a times100.simps b by (rule refl)
qed

lemma toFixed1_100_600: "toFixed1 (min100 (percentage 100 600)) = toDouble (167 / 10)"
  unfolding percentage_100_600
  using toFixed1_eq [of "2345624805922133 / 140737488355328" 167] by simp

lemma atLeast98_100_600:
  "atLeast98 (min100 (percentage 100 600)) = False" "atLeast98 (percentage 100 600) = False"
  unfolding percentage_100_600 by simp_all




lemma percentage_11_600:
  "percentage 11 600 = Finite (8256599316845909 / 4503599627370496)"
proof -
  have a: "toDouble (11 / 600) = Finite (2642111781390691 / 144115188075855872)"
    using toDouble_eq [of "- 6" "11 / 600" 5284223562781382]
    by (simp add: pow2_def)
  have b: "toDouble ((2642111781390691 / 144115188075855872) * 100) =
           Finite (8256599316845909 / 4503599627370496)"
    using toDouble_eq [of 0 "(2642111781390691 / 144115188075855872) * 100" 8256599316845909]
    by (simp add: pow2_def)
  show ?thesis
    unfolding percentage_def a times100.simps b by (rule refl)
qed

lemma toFixed1_11_600: "toFixed1 (min100 (percentage 11 600)) = toDouble (18 / 10)"
  unfolding percentage_11_600
  using toFixed1_eq [of "8256599316845909 / 4503599627370496" 18] by simp

lemma atLeast98_11_600:
  "atLeast98 (min100 (percentage 11 600)) = False" "atLeast98 (percentage 11 600) = False"
  unfolding percentage_11_600 by simp_all

lemma percentage_12_600:
  "percentage 12 600 = Finite 2"
proof -
  have a: "toDouble (12 / 600) = Finite (5764607523034235 / 288230376151711744)"
    using toDouble_eq [of "- 6" "12 / 600" 5764607523034235]
    by (simp add: pow2_def)
  have b: "toDouble ((5764607523034235 / 288230376151711744) * 100) =
           Finite 2"
    using toDouble_eq [of 1 "(5764607523034235 / 288230376151711744) * 100" 4503599627370496]
    by (simp add: pow2_def)
  show ?thesis
    unfolding percentage_def a times100.simps b by (rule refl)
qed

lemma toFixed1_12_600: "toFixed1 (min100 (percentage 12 600)) = Finite 2"
proof -
  have "toFixed1 (min100 (percentage 12 600)) = toDouble (20 / 10)"
    unfolding percentage_12_600
    using toFixed1_eq [of "2" 20] by simp
  also have "\<dots> = Finite 2"
    using toDouble_eq [of 1 "20 / 10" 4503599627370496] by (simp add: pow2_def)
  finally show ?thesis .
qed

lemma atLeast98_12_600:
  "atLeast98 (min100 (percentage 12 600)) = False" "atLeast98 (percentage 12 600) = False"
  unfolding percentage_12_600 by simp_all

lemma toDouble_28_7: "toDouble (287 / 10) = Finite (8078331831595827 / 281474976710656)"
  using toDouble_eq [of 4 "287 / 10" 8078331831595827] by (simp add: pow2_def)

lemma toDouble_99_2: "toDouble (992 / 10) = Finite (6980579422424269 / 70368744177664)"
  using toDouble_eq [of 6 "992 / 10" 6980579422424269] by (simp add: pow2_def)

lemma toDouble_6_3: "toDouble (63 / 10) = Finite (7093169413108531 / 1125899906842624)"
  using toDouble_eq [of 2 "63 / 10" 7093169413108531] by (simp add: pow2_def)



lemma toDouble_1_8: "toDouble (18 / 10) = Finite (8106479329266893 / 4503599627370496)"
  using toDouble_eq [of 0 "18 / 10" 8106479329266893] by (simp add: pow2_def)

section \<open>The debounced function\<close>

lemma saveProgress_guard:
  "env_videoData c = None \<or> (\<exists>v. env_videoData c = Some v \<and> duration v = 0)
     \<or> \<not> env_isFocused c
   \<Longrightarrow> saveProgress c position isCompleted s = s"
  by (auto simp: saveProgress_def split: option.split)

lemma storeWrites_saveProgress:
  "env_videoData c = Some v \<Longrightarrow> duration v \<noteq> 0 \<Longrightarrow> env_isFocused c \<Longrightarrow>
   storeWrites (saveProgress c position isCompleted s) =
     storeWrites s @ [(videoId s, newProgress v (now s) position isCompleted)]"
  by (simp add: saveProgress_def setProgress_def Let_def split: option.split)


lemma saveProgress_timeoutId [simp]:
  "saveProgress (c\<lparr>timeoutId := x\<rparr>) position isCompleted s =
   saveProgress c position isCompleted s"
  by (simp add: saveProgress_def split: option.split)

lemma alerts_callDebounced [simp]: "alerts (callDebounced i p c s) = alerts s"
  by (simp add: callDebounced_def)


text \<open>A call of a debounced closure, then three seconds with nothing else happening.\<close>

lemma windowCloses_callDebounced:
  assumes "i < length (savers s)"
  shows "windowCloses i (callDebounced i position isCompleted s) =
     commit (saveProgress (savers s ! i) position isCompleted
               (s\<lparr>now := now s + 3000,
                  savers := (savers s)[i := (savers s ! i)\<lparr>timeoutId := None\<rparr>]\<rparr>))"
  using assms
  by (simp add: windowCloses_def callDebounced_def fireSaver_def max_def)

lemma dispatch_StateChanged_ENDED:
  "settled s \<Longrightarrow>
   dispatch (Message (StateChanged ENDED t)) s =
     callDebounced (debouncedSaveProgress s) t (Some True) s"
  by (simp add: dispatch_def handleWebViewMessage_def StateChanged_def ENDED_def PLAYING_def
      PAUSED_def commit_settled)

section \<open>Invariants of the screen\<close>

text \<open>
  Between events the screen is \<open>coherent\<close>: this holds after the first render and is kept
  by every event and by every timer that fires.
\<close>

lemma coherent_iff: "coherent s = (settled s \<and> closureInUse s)"
  by (auto simp: coherent_def closureInUse_def)

lemma closureInUse_cong:
  assumes "closures s = closures t"
  shows "closureInUse s = closureInUse t"
proof -
  let ?f = "\<lambda>c. (env_videoData c, env_isFocused c)"
  from assms have m: "map ?f (savers s) = map ?f (savers t)"
    and c: "debouncedSaveProgress s = debouncedSaveProgress t"
    and v: "videoData s = videoData t" and f: "isFocused s = isFocused t"
    by (simp_all add: closures_def)
  from m have l: "length (savers s) = length (savers t)"
    by (rule map_eq_imp_length_eq)
  have n: "?f (savers s ! i) = ?f (savers t ! i)" if "i < length (savers s)" for i
  proof -
    have "?f (savers s ! i) = map ?f (savers s) ! i"
      using that by simp
    also have "\<dots> = map ?f (savers t) ! i"
      by (simp only: m)
    also have "\<dots> = ?f (savers t ! i)"
      using that l by simp
    finally show ?thesis .
  qed
  show ?thesis
    unfolding closureInUse_def using n [of "debouncedSaveProgress s"] l c v f by auto
qed

lemma closures_callDebounced [simp]: "closures (callDebounced i p c s) = closures s"
  by (simp add: closures_def callDebounced_def map_update list_update_same_conv)

lemma closures_misc [simp]:
  "closures (s\<lparr>sessionTimerIntervalRef := x\<rparr>) = closures s"
  "closures (s\<lparr>sessionTimeRemaining := r\<rparr>) = closures s"
  "closures (s\<lparr>console := l\<rparr>) = closures s"
  "closures (s\<lparr>injected := j\<rparr>) = closures s"
  "closures (s\<lparr>alerts := a\<rparr>) = closures s"
  "closures (s\<lparr>rendered := d\<rparr>) = closures s"
  "closures (s\<lparr>now := t\<rparr>) = closures s"
  "closures (s\<lparr>storeWrites := w\<rparr>) = closures s"
  "closures (s\<lparr>isPlayerReady := b\<rparr>) = closures s"
  "closures (s\<lparr>currentPlaybackTime := q\<rparr>) = closures s"
  "closures (s\<lparr>sessionEndTime := e\<rparr>) = closures s"
  "closures (s\<lparr>appState := st\<rparr>) = closures s"
  "closures (s\<lparr>storeOnline := b\<rparr>) = closures s"
  "closures (s\<lparr>userPrefs := u\<rparr>) = closures s"
  "closures (s\<lparr>isLoading := b\<rparr>) = closures s"
  by (simp_all add: closures_def)

lemma closures_injectJavaScript [simp]: "closures (injectJavaScript c s) = closures s"
  by (simp add: injectJavaScript_def)

lemma closures_updateTimer [simp]: "closures (updateTimer e f s) = closures s"
  by (simp add: updateTimer_def Let_def)

lemma closures_timerCleanup [simp]: "closures (timerCleanup s) = closures s"
  by (simp add: timerCleanup_def)

lemma closures_appStateCleanup [simp]: "closures (appStateCleanup s) = closures s"
  by (simp add: appStateCleanup_def Let_def)

lemma closures_focusCleanup [simp]: "closures (focusCleanup s) = closures s"
  by (simp add: focusCleanup_def Let_def)

lemma closures_timerEffect [simp]: "closures (timerEffect s) = closures s"
  by (simp add: timerEffect_def Let_def split: option.split)

lemma closures_commit: "closures (commit s) = closures (render s)"
  by (simp add: commit_def Let_def)

lemma closureInUse_render:
  "(d_videoDataRef (rendered s) = videoDataRef s \<and> d_isFocused (rendered s) = isFocused s
      \<longrightarrow> closureInUse s)
   \<Longrightarrow> closureInUse (render s)"
  by (auto simp: render_def closureInUse_def)

lemma coherent_commit:
  "(d_videoDataRef (rendered s) = videoDataRef s \<and> d_isFocused (rendered s) = isFocused s
      \<longrightarrow> closureInUse s)
   \<Longrightarrow> coherent (commit s)"
  using closureInUse_cong [OF closures_commit, of s] closureInUse_render [of s]
  by (simp add: coherent_iff settled_commit)


lemma rendered_callDebounced [simp]: "rendered (callDebounced i p c s) = rendered s"
  by (simp add: callDebounced_def)

lemma rendered_injectJavaScript [simp]: "rendered (injectJavaScript c s) = rendered s"
  by (simp add: injectJavaScript_def)

lemma rendered_handleFinalSessionEnd [simp]: "rendered (handleFinalSessionEnd p s) = rendered s"
  by (simp add: handleFinalSessionEnd_def Let_def)

lemma closures_handleFinalSessionEnd [simp]: "closures (handleFinalSessionEnd p s) = closures s"
  by (simp add: handleFinalSessionEnd_def Let_def)

lemma rendered_handleWebViewMessage [simp]: "rendered (handleWebViewMessage m s) = rendered s"
  by (simp add: handleWebViewMessage_def Let_def
      split: parsed.split messageType.split option.split)

lemma closures_handleWebViewMessage [simp]: "closures (handleWebViewMessage m s) = closures s"
  by (simp add: handleWebViewMessage_def Let_def
      split: parsed.split messageType.split option.split)

lemma rendered_handleSaveAndExit [simp]: "rendered (handleSaveAndExit s) = rendered s"
  by (simp add: handleSaveAndExit_def)

lemma closures_handleSaveAndExit [simp]: "closures (handleSaveAndExit s) = closures s"
  by (simp add: handleSaveAndExit_def)

lemma rendered_handleExtendSession [simp]: "rendered (handleExtendSession s) = rendered s"
  by (simp add: handleExtendSession_def Let_def split: option.split)

lemma closures_handleExtendSession [simp]: "closures (handleExtendSession s) = closures s"
  by (simp add: handleExtendSession_def Let_def split: option.split)

lemma rendered_handleAppStateChange [simp]: "rendered (handleAppStateChange a s) = rendered s"
  by (simp add: handleAppStateChange_def Let_def)

lemma closures_handleAppStateChange [simp]: "closures (handleAppStateChange a s) = closures s"
  by (simp add: handleAppStateChange_def Let_def)

lemma rendered_fetchInitialData [simp]: "rendered (fetchInitialData a v u s) = rendered s"
  by (simp add: fetchInitialData_def Let_def split: fetched.split)

lemma closures_fetchInitialData:
  "videoDataRef (fetchInitialData a v u s) = videoDataRef s \<Longrightarrow>
   closures (fetchInitialData a v u s) = closures s"
  by (cases a; cases v; cases u) (simp_all add: fetchInitialData_def Let_def closures_def)

lemma rendered_handle [simp]: "rendered (handle e s) = rendered s"
  by (cases e) simp_all

lemma closures_handle:
  assumes "videoDataRef (handle e s) = videoDataRef s" and "isFocused (handle e s) = isFocused s"
  shows "closures (handle e s) = closures s"
proof (cases e)
  case (FocusChanged b)
  with assms(2) have "s\<lparr>isFocused := b\<rparr> = s"
    by simp
  with FocusChanged show ?thesis
    by simp
next
  case (Fetched a v u)
  with assms(1) show ?thesis
    by (simp add: closures_fetchInitialData)
qed simp_all

lemma coherent_dispatch: "coherent s \<Longrightarrow> coherent (dispatch e s)"
  unfolding dispatch_def
proof (rule coherent_commit, rule impI)
  assume c: "coherent s"
  assume "d_videoDataRef (rendered (handle e s)) = videoDataRef (handle e s) \<and>
          d_isFocused (rendered (handle e s)) = isFocused (handle e s)"
  with c have "videoDataRef (handle e s) = videoDataRef s" "isFocused (handle e s) = isFocused s"
    by (simp_all add: coherent_def settled_def currentDeps_def)
  then have "closures (handle e s) = closures s"
    by (rule closures_handle)
  then have "closureInUse (handle e s) = closureInUse s"
    by (rule closureInUse_cong)
  then show "closureInUse (handle e s)"
    using c by (simp add: coherent_iff)
qed

lemma coherent_mount: "coherent (mount vid focused t)"
  by (simp add: coherent_def settled_def mount_def currentDeps_def)

lemma closures_setProgress:
  "videoDataRef (setProgress p s) = videoDataRef s \<Longrightarrow> closures (setProgress p s) = closures s"
  by (cases "videoData s") (simp_all add: setProgress_def)

lemma videoDataRef_misc [simp]:
  "videoDataRef (s\<lparr>console := l\<rparr>) = videoDataRef s"
  "videoDataRef (s\<lparr>storeWrites := w\<rparr>) = videoDataRef s"
  by simp_all

lemma closures_saveProgress:
  assumes "videoDataRef (saveProgress c p f s) = videoDataRef s"
  shows "closures (saveProgress c p f s) = closures s"
proof (cases "saveProgress c p f s = s")
  case True
  then show ?thesis by simp
next
  case False
  then obtain v where v: "env_videoData c = Some v" and g: "\<not> (duration v = 0 \<or> \<not> env_isFocused c)"
    using saveProgress_guard [of c p f s] by (cases "env_videoData c") auto
  define w where "w = s\<lparr>storeWrites := storeWrites s @ [(videoId s, newProgress v (now s) p f)]\<rparr>"
  have cw: "closures w = closures s" and rw: "videoDataRef w = videoDataRef s"
    by (simp_all add: w_def)
  show ?thesis
  proof (cases "storeOnline s")
    case True
    then have e: "saveProgress c p f s =
        setProgress (newProgress v (now s) p f) (w\<lparr>console := console w @ [ProgressSaved \<lfloor>p\<rfloor>]\<rparr>)"
      using v g by (simp add: saveProgress_def Let_def w_def)
    have "closures (setProgress (newProgress v (now s) p f) (w\<lparr>console := console w @ [ProgressSaved \<lfloor>p\<rfloor>]\<rparr>))
        = closures (w\<lparr>console := console w @ [ProgressSaved \<lfloor>p\<rfloor>]\<rparr>)"
      using assms rw unfolding e by (intro closures_setProgress) simp
    then show ?thesis
      by (simp add: e cw)
  next
    case False
    then have "saveProgress c p f s = w\<lparr>console := console w @ [SaveFailed]\<rparr>"
      using v g by (simp add: saveProgress_def Let_def w_def)
    then show ?thesis
      by (simp add: cw)
  qed
qed

lemma rendered_saveProgress [simp]: "rendered (saveProgress c p f s) = rendered s"
  by (simp add: saveProgress_def setProgress_def Let_def split: option.split)

lemma isFocused_saveProgress [simp]: "isFocused (saveProgress c p f s) = isFocused s"
  by (simp add: saveProgress_def setProgress_def Let_def split: option.split)

lemma closures_clear:
  "closures (s\<lparr>savers := (savers s)[i := (savers s ! i)\<lparr>timeoutId := x\<rparr>]\<rparr>) = closures s"
  by (cases "i < length (savers s)")
     (simp_all add: closures_def map_update list_update_same_conv list_update_beyond)


lemma coherent_fireSaver: "coherent s \<Longrightarrow> coherent (fireSaver i s)"
proof (cases "i < length (savers s)")
  case False
  assume "coherent s"
  with False show ?thesis by (simp add: fireSaver_def)
next
  case True
  assume c: "coherent s"
  show ?thesis
  proof (cases "timeoutId (savers s ! i)")
    case None
    with True c show ?thesis by (simp add: fireSaver_def)
  next
    case (Some a)
    obtain due position isCompleted where a: "a = (due, position, isCompleted)"
      by (cases a)
    let ?s0 = "s\<lparr>savers := (savers s)[i := (savers s ! i)\<lparr>timeoutId := None\<rparr>]\<rparr>"
    let ?s1 = "saveProgress (savers s ! i) position isCompleted ?s0"
    have f: "fireSaver i s = commit ?s1"
      using True Some a by (simp add: fireSaver_def)
    have "coherent (commit ?s1)"
    proof (rule coherent_commit, rule impI)
      assume "d_videoDataRef (rendered ?s1) = videoDataRef ?s1 \<and>
              d_isFocused (rendered ?s1) = isFocused ?s1"
      with c have "videoDataRef ?s1 = videoDataRef ?s0"
        by (simp add: coherent_def settled_def currentDeps_def)
      then have "closures ?s1 = closures ?s0"
        by (rule closures_saveProgress)
      then have "closures ?s1 = closures s"
        by (simp add: closures_clear)
      then have "closureInUse ?s1 = closureInUse s"
        by (rule closureInUse_cong)
      then show "closureInUse ?s1"
        using c by (simp add: coherent_iff)
    qed
    with f show ?thesis by simp
  qed
qed

lemma coherent_tick: "coherent s \<Longrightarrow> coherent (tick s)"
proof -
  assume c: "coherent s"
  have r: "rendered (updateTimer e f x) = rendered x" for e f x
    by (simp add: updateTimer_def Let_def)
  have "closures (tick s) = closures s"
    by (simp add: tick_def split: option.split)
  moreover have "settled (tick s)"
    using c by (simp add: tick_def coherent_def settled_def r split: option.split)
  ultimately show ?thesis
    using c closureInUse_cong [of "tick s" s] by (simp add: coherent_iff)
qed

lemma coherent_now [simp]: "coherent (s\<lparr>now := t\<rparr>) = coherent s"
  by (simp add: coherent_def settled_def currentDeps_def)

lemma coherent_fire: "coherent s \<Longrightarrow> coherent (fire k s)"
  by (cases k) (simp_all add: coherent_fireSaver coherent_tick)

lemma coherent_elapse: "coherent s \<Longrightarrow> elapse n until s = Some s' \<Longrightarrow> coherent s'"
proof (induction n arbitrary: s)
  case 0
  then show ?case
    by (auto split: option.splits if_splits)
next
  case (Suc n)
  show ?case
  proof (cases "earliest (timers s)")
    case None
    with Suc.prems show ?thesis by auto
  next
    case (Some a)
    obtain due k where a: "a = (due, k)" by (cases a)
    show ?thesis
    proof (cases "until < due")
      case True
      with Suc.prems Some a show ?thesis by auto
    next
      case False
      with Suc.prems Some a
      have "elapse n until (fire k (s\<lparr>now := max (now s) due\<rparr>)) = Some s'"
        by simp
      moreover have "coherent (fire k (s\<lparr>now := max (now s) due\<rparr>))"
        using Suc.prems(1) by (simp add: coherent_fire)
      ultimately show ?thesis
        by (rule Suc.IH [rotated])
    qed
  qed
qed

lemma coherent_run: "coherent s \<Longrightarrow> run n es s = Some s' \<Longrightarrow> coherent s'"
proof (induction es arbitrary: s)
  case Nil
  then show ?case by simp
next
  case (Cons a es)
  obtain t e where a: "a = (t, e)" by (cases a)
  from Cons.prems a obtain s1 where s1: "elapse n t s = Some s1"
    and r: "run n es (dispatch e s1) = Some s'"
    by (auto split: option.splits)
  have "coherent s1"
    using Cons.prems(1) s1 by (rule coherent_elapse)
  then have "coherent (dispatch e s1)"
    by (rule coherent_dispatch)
  then show ?case
    using r by (rule Cons.IH)
qed

text \<open>
  An idle timer with preferences loaded means a negative default session length, and an
  idle timer without preferences a screen that cannot be pressed, in every state the
  screen reaches.
\<close>

lemma idle_eq:
  "userPrefs t = userPrefs s \<Longrightarrow> sessionEndTime t = sessionEndTime s \<Longrightarrow>
   gone t = gone s \<Longrightarrow> isLoading t = isLoading s \<Longrightarrow>
   (videoData t = None) = (videoData s = None) \<Longrightarrow>
   idleWithoutDefault t = idleWithoutDefault s"
  by (simp add: idleWithoutDefault_def cong: option.case_cong)

lemma idleWithoutDefault_hooks:
  "hooks t = hooks s \<Longrightarrow> idleWithoutDefault t = idleWithoutDefault s"
  by (rule idle_eq) (simp_all add: hooks_def)

lemma idle_callDebounced [simp]: "idleWithoutDefault (callDebounced i p c s) = idleWithoutDefault s"
  by (rule idleWithoutDefault_hooks) simp

lemma idle_injectJavaScript [simp]: "idleWithoutDefault (injectJavaScript c s) = idleWithoutDefault s"
  by (rule idleWithoutDefault_hooks) simp

lemma idle_misc [simp]:
  "idleWithoutDefault (s\<lparr>console := l\<rparr>) = idleWithoutDefault s"
  "idleWithoutDefault (s\<lparr>alerts := a\<rparr>) = idleWithoutDefault s"
  "idleWithoutDefault (s\<lparr>isPlayerReady := b\<rparr>) = idleWithoutDefault s"
  "idleWithoutDefault (s\<lparr>currentPlaybackTime := q\<rparr>) = idleWithoutDefault s"
  "idleWithoutDefault (s\<lparr>appState := st\<rparr>) = idleWithoutDefault s"
  "idleWithoutDefault (s\<lparr>isFocused := b\<rparr>) = idleWithoutDefault s"
  "idleWithoutDefault (s\<lparr>storeOnline := b\<rparr>) = idleWithoutDefault s"
  "idleWithoutDefault (s\<lparr>now := t\<rparr>) = idleWithoutDefault s"
  "idleWithoutDefault (s\<lparr>savers := sv\<rparr>) = idleWithoutDefault s"
  "idleWithoutDefault (s\<lparr>storeWrites := w\<rparr>) = idleWithoutDefault s"
  "idleWithoutDefault (s\<lparr>sessionTimerIntervalRef := x\<rparr>) = idleWithoutDefault s"
  by (simp_all add: idleWithoutDefault_def cong: option.case_cong)

lemma idle_handleFinalSessionEnd [simp]:
  "idleWithoutDefault (handleFinalSessionEnd p s) = idleWithoutDefault s"
  by (simp add: handleFinalSessionEnd_def Let_def)

lemma idle_handleWebViewMessage:
  "idleWithoutDefault (handleWebViewMessage m s) = idleWithoutDefault s"
  by (simp add: handleWebViewMessage_def Let_def
      split: parsed.split messageType.split option.split)

lemma idle_handleSaveAndExit: "idleWithoutDefault (handleSaveAndExit s) = idleWithoutDefault s"
  by (simp add: handleSaveAndExit_def)

lemma idle_handleExtendSession:
  "idleWithoutDefault s \<Longrightarrow> idleWithoutDefault (handleExtendSession s)"
  by (simp add: idleWithoutDefault_def handleExtendSession_def Let_def split: option.splits)

lemma idle_handleAppStateChange:
  "idleWithoutDefault (handleAppStateChange a s) = idleWithoutDefault s"
  by (simp add: handleAppStateChange_def Let_def)

lemma idle_fetchInitialData:
  "idleWithoutDefault s \<Longrightarrow> idleWithoutDefault (fetchInitialData a v u s)"
  by (cases a; cases v; cases u)
     (auto simp: idleWithoutDefault_def fetchInitialData_def Let_def split: option.splits)

lemma idle_handle: "idleWithoutDefault s \<Longrightarrow> idleWithoutDefault (handle e s)"
  by (cases e)
     (simp_all add: idle_handleWebViewMessage idle_handleSaveAndExit idle_handleExtendSession
       idle_handleAppStateChange idle_fetchInitialData)

lemma idle_commit [simp]: "idleWithoutDefault (commit s) = idleWithoutDefault s"
  by (rule idleWithoutDefault_hooks) (rule hooks_commit)

lemma idle_dispatch: "idleWithoutDefault s \<Longrightarrow> idleWithoutDefault (dispatch e s)"
  by (simp add: dispatch_def idle_handle)

lemma idle_saveProgress [simp]: "idleWithoutDefault (saveProgress c p f s) = idleWithoutDefault s"
proof (rule idle_eq)
  show "userPrefs (saveProgress c p f s) = userPrefs s"
    by (simp add: saveProgress_def setProgress_def Let_def split: option.split)
  show "sessionEndTime (saveProgress c p f s) = sessionEndTime s"
    by (simp add: saveProgress_def setProgress_def Let_def split: option.split)
  show "gone (saveProgress c p f s) = gone s"
    by (simp add: saveProgress_def setProgress_def Let_def split: option.split)
  show "isLoading (saveProgress c p f s) = isLoading s"
    by (simp add: saveProgress_def setProgress_def Let_def split: option.split)
  show "(videoData (saveProgress c p f s) = None) = (videoData s = None)"
    by (simp add: saveProgress_def setProgress_def Let_def split: option.split)
qed

lemma idle_fire: "idleWithoutDefault s \<Longrightarrow> idleWithoutDefault (fire k s)"
proof (cases k)
  case (SaverTimeout i)
  assume "idleWithoutDefault s"
  with SaverTimeout show ?thesis
    by (simp add: fireSaver_def split: option.split)
next
  case SessionInterval
  assume a: "idleWithoutDefault s"
  have "hooks (tick s) = hooks s"
    by (simp add: tick_def split: option.split)
  then show ?thesis
    using a SessionInterval idleWithoutDefault_hooks [of "tick s" s] by simp
qed

lemma idle_mount: "idleWithoutDefault (mount vid focused t)"
  by (simp add: idleWithoutDefault_def mount_def)

lemma idle_elapse: "idleWithoutDefault s \<Longrightarrow> elapse n until s = Some s' \<Longrightarrow> idleWithoutDefault s'"
proof (induction n arbitrary: s)
  case 0
  then show ?case
    by (auto split: option.splits if_splits)
next
  case (Suc n)
  show ?case
  proof (cases "earliest (timers s)")
    case None
    with Suc.prems show ?thesis by auto
  next
    case (Some a)
    obtain due k where a: "a = (due, k)" by (cases a)
    show ?thesis
    proof (cases "until < due")
      case True
      with Suc.prems Some a show ?thesis by auto
    next
      case False
      with Suc.prems Some a
      have "elapse n until (fire k (s\<lparr>now := max (now s) due\<rparr>)) = Some s'"
        by simp
      moreover have "idleWithoutDefault (fire k (s\<lparr>now := max (now s) due\<rparr>))"
        using Suc.prems(1) by (simp add: idle_fire)
      ultimately show ?thesis
        by (rule Suc.IH [rotated])
    qed
  qed
qed

lemma idle_run: "idleWithoutDefault s \<Longrightarrow> run n es s = Some s' \<Longrightarrow> idleWithoutDefault s'"
proof (induction es arbitrary: s)
  case Nil
  then show ?case by simp
next
  case (Cons a es)
  obtain t e where a: "a = (t, e)" by (cases a)
  from Cons.prems a obtain s1 where s1: "elapse n t s = Some s1"
    and r: "run n es (dispatch e s1) = Some s'"
    by (auto split: option.splits)
  have "idleWithoutDefault s1"
    using Cons.prems(1) s1 by (rule idle_elapse)
  then have "idleWithoutDefault (dispatch e s1)"
    by (rule idle_dispatch)
  then show ?case
    using r by (rule Cons.IH)
qed

lemma reachable_idleWithoutDefault: "reachable s \<Longrightarrow> idleWithoutDefault s"
  by (induction rule: reachable.induct) (simp_all add: idle_mount idle_dispatch idle_elapse)

lemma reachable_coherent: "reachable s \<Longrightarrow> coherent s"
  by (induction rule: reachable.induct)
     (simp_all add: coherent_mount coherent_dispatch coherent_elapse)

lemma reachable_run: "reachable s \<Longrightarrow> run n es s = Some s' \<Longrightarrow> reachable s'"
proof (induction es arbitrary: s)
  case Nil
  then show ?case by simp
next
  case (Cons a es)
  obtain t e where a: "a = (t, e)" by (cases a)
  from Cons.prems a obtain s1 where s1: "elapse n t s = Some s1"
    and r: "run n es (dispatch e s1) = Some s'"
    by (auto split: option.splits)
  have "reachable s1"
    using Cons.prems(1) s1 by (rule reachable.time)
  then have "reachable (dispatch e s1)"
    by (rule reachable.event)
  then show ?case
    using r by (rule Cons.IH)
qed

text \<open>
  \<open>windowCloses\<close> is the step \<open>elapse\<close> takes when the timeout of closure \<open>i\<close> is the
  earliest timer and falls due in time.
\<close>

lemma elapse_windowCloses:
  assumes "earliest (timers s) = Some (due, SaverTimeout i)" and "due \<le> until"
    and "i < length (savers s)" and "timeoutId (savers s ! i) = Some (due, a)"
  shows "elapse (Suc n) until s = elapse n until (windowCloses i s)"
  using assms by (subst elapse.simps) (simp add: windowCloses_def del: elapse.simps)

text \<open>
  After a \<^verbatim>\<open>TIME_UPDATE\<close> that changes a positive playback position, the commit runs the
  cleanup of the \<^verbatim>\<open>AppState\<close> effect with the closure of the previous render: the
  pending call of the debounced closure then carries the previous position, not the one
  of the message.
\<close>

lemma savers_rendered [simp]: "savers (s\<lparr>rendered := r\<rparr>) = savers s"
  by simp

lemma time_update_pending:
  assumes "coherent s" and "videoData s \<noteq> None" and "0 < currentPlaybackTime s"
    and "t \<noteq> currentPlaybackTime s"
  shows "timeoutId (savers (dispatch (Message (TimeUpdate t)) s) ! debouncedSaveProgress s) =
         Some (now s + 3000, currentPlaybackTime s, None)"
proof -
  let ?i = "debouncedSaveProgress s"
  define s1 where "s1 = callDebounced ?i t None (s\<lparr>currentPlaybackTime := t\<rparr>)"
  from assms(1) have st: "rendered s = currentDeps s" and i: "?i < length (savers s)"
    by (simp_all add: coherent_def settled_def)
  have h: "handle (Message (TimeUpdate t)) s = s1"
    by (simp add: handleWebViewMessage_def TimeUpdate_def s1_def)
  have r1: "rendered s1 = currentDeps s"
    by (simp add: s1_def callDebounced_def st)
  have f1: "videoDataRef s1 = videoDataRef s" "isFocused s1 = isFocused s"
    "currentPlaybackTime s1 = t" "now s1 = now s" "length (savers s1) = length (savers s)"
    by (simp_all add: s1_def callDebounced_def)
  have rn: "render s1 = s1"
    by (simp add: render_def r1 f1 currentDeps_def)
  have td: "timerDepsChanged s1"
    using assms(4) by (simp add: timerDepsChanged_def r1 f1 currentDeps_def)
  have ad: "appStateDepsChanged s1"
    using assms(4) by (simp add: appStateDepsChanged_def r1 f1 currentDeps_def)
  have c: "savers (commit s1) = savers (appStateCleanup (timerCleanup s1))"
    by (simp add: commit_def rn td ad Let_def)
  have rc: "rendered (timerCleanup s1) = currentDeps s"
    by (simp add: timerCleanup_def r1)
  have a: "appStateCleanup (timerCleanup s1) =
           callDebounced ?i (currentPlaybackTime s) None (timerCleanup s1)"
    using assms(2,3) by (simp add: appStateCleanup_def rc currentDeps_def)
  have l: "?i < length (savers (timerCleanup s1))" and n: "now (timerCleanup s1) = now s"
    using i by (simp_all add: timerCleanup_def f1)
  have "savers (commit s1) = savers (callDebounced ?i (currentPlaybackTime s) None (timerCleanup s1))"
    by (simp add: c a)
  then show ?thesis
    unfolding dispatch_def h using l n by (simp add: callDebounced_def)
qed

text \<open>
  Once the remaining time is 0, every \<^verbatim>\<open>TIME_UPDATE\<close> that changes the playback position
  re-runs the timer effect: the request for the end of the session is injected again, and
  a new interval is started.
\<close>

lemma time_update_after_expiry:
  assumes "settled s" and "sessionEndTime s = Some endAt" and "endAt \<noteq> 0" and "isFocused s"
    and "endAt - of_int (now s) < 1000" and "webViewRef_current s"
    and "t \<noteq> currentPlaybackTime s"
  shows "injected (dispatch (Message (TimeUpdate t)) s) = injected s @ [PostSessionEndRequest t]
     \<and> sessionTimerIntervalRef (dispatch (Message (TimeUpdate t)) s) = Some (now s + 1000)"
proof -
  define s1 where "s1 = callDebounced (debouncedSaveProgress s) t None (s\<lparr>currentPlaybackTime := t\<rparr>)"
  from assms(1) have st: "rendered s = currentDeps s"
    by (simp add: settled_def)
  have h: "handle (Message (TimeUpdate t)) s = s1"
    by (simp add: handleWebViewMessage_def TimeUpdate_def s1_def)
  have r1: "rendered s1 = currentDeps s"
    by (simp add: s1_def callDebounced_def st)
  have f1: "videoDataRef s1 = videoDataRef s" "isFocused s1 = isFocused s"
    "currentPlaybackTime s1 = t" "now s1 = now s" "sessionEndTime s1 = sessionEndTime s"
    "injected s1 = injected s" "isLoading s1 = isLoading s" "videoData s1 = videoData s"
    by (simp_all add: s1_def callDebounced_def)
  have rn: "render s1 = s1"
    by (simp add: render_def r1 f1 currentDeps_def)
  have td: "timerDepsChanged s1"
    using assms(7) by (simp add: timerDepsChanged_def r1 f1 currentDeps_def)
  define s4 where "s4 = (if focusCleanupDue s1
      then focusCleanup ((if appStateDepsChanged s1 then appStateCleanup (timerCleanup s1) else timerCleanup s1))
      else (if appStateDepsChanged s1 then appStateCleanup (timerCleanup s1) else timerCleanup s1))"
  have c: "commit s1 = (timerEffect s4)\<lparr>rendered := currentDeps (timerEffect s4)\<rparr>"
    by (simp add: commit_def rn td Let_def s4_def)
  have k: "hooks s4 = hooks s1"
    by (simp add: s4_def)
  have j: "injected s4 = injected s1"
    by (simp add: s4_def focusCleanup_def appStateCleanup_def timerCleanup_def callDebounced_def Let_def)
  from k have f4: "isFocused s4 = isFocused s" "currentPlaybackTime s4 = t" "now s4 = now s"
    "sessionEndTime s4 = Some endAt" "isLoading s4 = isLoading s" "videoData s4 = videoData s"
    using f1 assms(2) by (simp_all add: hooks_def)
  have z: "max 0 \<lfloor>(endAt - of_int (now s)) / 1000\<rfloor> = 0"
  proof -
    have "(endAt - of_int (now s)) / 1000 < 1"
      using assms(5) by simp
    then have "\<lfloor>(endAt - of_int (now s)) / 1000\<rfloor> < 1"
      by (simp add: floor_less_iff)
    then show ?thesis by simp
  qed
  have "injected (timerEffect s4) = injected s @ [PostSessionEndRequest t]
      \<and> sessionTimerIntervalRef (timerEffect s4) = Some (now s + 1000)"
    using assms(3,4,6) z
    by (simp add: timerEffect_def updateTimer_def injectJavaScript_def webViewRef_current_def
        f4 j f1 Let_def)
  then show ?thesis
    unfolding dispatch_def h c by simp
qed

section \<open>Runs of the screen\<close>

text \<open>
  The runs used below, evaluated by the code equations of the model.  The records they
  write are left as calls of \<open>newProgress\<close>, whose code equation is set aside while the
  runs are evaluated: its fields are computed by the lemmas of section ``The percentages
  of the examples''.
\<close>

declare newProgress_def [code del]

lemma run_ended_at_595:
  "map_option storeWrites
     (runUntil 10 [(300, Message Ready), (400, Message (StateChanged ENDED 595))] 3400
        (session (video 600 0) 30)) =
   Some [(''video-1'', newProgress (video 600 0) 3400 595 (Some True))]"
  by code_simp

lemma run_paused_then_blurred:
  "map_option isFocused
     (runUntil 10 [(400, Message (StateChanged PAUSED 100)), (1400, FocusChanged False)] 3399
        (session (video 600 0) 30)) = Some False"
  "map_option storeWrites
     (runUntil 10 [(400, Message (StateChanged PAUSED 100)), (1400, FocusChanged False)] 3399
        (session (video 600 0) 30)) = Some []"
  "map_option isFocused
     (runUntil 10 [(400, Message (StateChanged PAUSED 100)), (1400, FocusChanged False)] 3400
        (session (video 600 0) 30)) = Some False"
  "map_option storeWrites
     (runUntil 10 [(400, Message (StateChanged PAUSED 100)), (1400, FocusChanged False)] 3400
        (session (video 600 0) 30)) =
   Some [(''video-1'', newProgress (video 600 0) 3400 100 None)]"
  by code_simp+

lemma run_time_updates:
  "map_option storeWrites
     (runUntil 10
        [(300, Message Ready), (400, Message (TimeUpdate 11)), (1400, Message (TimeUpdate 12))]
        4400 (session (video 600 10) 30)) =
   Some [(''video-1'', newProgress (video 600 10) 4400 11 None)]"
  "map_option storeWrites
     (runUntil 20
        [(300, Message Ready), (400, Message (TimeUpdate 11)), (1400, Message (TimeUpdate 12))]
        7400 (session (video 600 10) 30)) =
   Some [(''video-1'', newProgress (video 600 10) 4400 11 None),
         (''video-1'', newProgress (video 600 10) 7400 12 None)]"
  by code_simp+

declare newProgress_def [code]

text \<open>The screen of the examples, once its data is loaded.\<close>

lemma session_600:
  "coherent (session (video 600 0) 30)"
  "videoData (session (video 600 0) 30) = Some (video 600 0)"
  "isFocused (session (video 600 0) 30)"
  "storeWrites (session (video 600 0) 30) = []"
  "videoId (session (video 600 0) 30) = ''video-1''"
  "now (session (video 600 0) 30) = 0"
  by code_simp+

lemma duration_video [simp]: "duration (video len p) = len"
  by (simp add: video_def)

text \<open>
  When the page reports \<^verbatim>\<open>ENDED\<close> on a focused screen with a video of a duration other
  than 0, and the debounce window then closes, one record is written, built from the
  reported position with \<^verbatim>\<open>isCompleted = true\<close>.
\<close>

lemma write_after_ended:
  assumes "coherent s" and "videoData s = Some v" and "isFocused s" and "duration v \<noteq> 0"
  shows "storeWrites (windowCloses (debouncedSaveProgress s)
           (dispatch (Message (StateChanged ENDED position)) s)) =
         storeWrites s @ [(videoId s, newProgress v (now s + 3000) position (Some True))]"
proof -
  let ?i = "debouncedSaveProgress s"
  from assms(1) have st: "settled s" and i: "?i < length (savers s)"
    and ev: "env_videoData (savers s ! ?i) = videoData s"
    and ef: "env_isFocused (savers s ! ?i) = isFocused s"
    by (simp_all add: coherent_def)
  have "storeWrites (windowCloses ?i (dispatch (Message (StateChanged ENDED position)) s)) =
        storeWrites (saveProgress (savers s ! ?i) position (Some True)
          (s\<lparr>now := now s + 3000,
             savers := (savers s)[?i := (savers s ! ?i)\<lparr>timeoutId := None\<rparr>]\<rparr>))"
    by (simp add: dispatch_StateChanged_ENDED [OF st] windowCloses_callDebounced [OF i])
  also have "\<dots> =
        storeWrites s @ [(videoId s, newProgress v (now s + 3000) position (Some True))]"
    using ev ef assms(2-4) by (simp add: storeWrites_saveProgress [of _ v])
  finally show ?thesis .
qed

section \<open>Progress records written to the store\<close>

text \<open>
  Claim C1, as amended.  When the page reports \<^verbatim>\<open>ENDED\<close> at a position between 0 and the
  duration of a loaded video of positive duration, on a focused screen, and the debounce
  window then closes, one record is written.  Its \<open>completionPercentage\<close> is
  \<^verbatim>\<open>(position / duration) * 100\<close> computed in double precision, capped at 100 and rounded
  to one decimal place: the capped percentage is a number \<open>x\<close> between 0 and 100, and
  what is stored is the double of a whole number of tenths at most 0.05 away from \<open>x\<close>.
  Its \<open>completed\<close> flag is true whatever the percentage, because the handler passes
  \<^verbatim>\<open>isCompleted = true\<close>.
\<close>

theorem ended_write_record:
  assumes "coherent s" and "videoData s = Some v" and "isFocused s"
    and "0 < duration v" and "0 \<le> position" and "position \<le> duration v"
  shows "storeWrites (windowCloses (debouncedSaveProgress s)
           (dispatch (Message (StateChanged ENDED position)) s)) =
         storeWrites s @
           [(videoId s,
             \<lparr>lastPosition = of_int \<lfloor>position\<rfloor>,
              completionPercentage = toFixed1 (min100 (percentage position (duration v))),
              completed = True,
              lastUpdated = now s + 3000\<rparr>)]
     \<and> (\<exists>x (n::int). min100 (percentage position (duration v)) = Finite x
           \<and> 0 \<le> x \<and> x \<le> 100
           \<and> toFixed1 (min100 (percentage position (duration v))) = toDouble (of_int n / 10)
           \<and> \<bar>of_int n / 10 - x\<bar> \<le> 1 / 20)"
proof -
  from assms(4) have "duration v \<noteq> 0"
    by simp
  from write_after_ended [OF assms(1-3) this]
  have w: "storeWrites (windowCloses (debouncedSaveProgress s)
             (dispatch (Message (StateChanged ENDED position)) s)) =
        storeWrites s @ [(videoId s, newProgress v (now s + 3000) position (Some True))]" .
  have "newProgress v (now s + 3000) position (Some True) =
        \<lparr>lastPosition = of_int \<lfloor>position\<rfloor>,
         completionPercentage = toFixed1 (min100 (percentage position (duration v))),
         completed = True,
         lastUpdated = now s + 3000\<rparr>"
    by (simp add: newProgress_def Let_def)
  with w rounded_percentage [OF assms(5,4)] show ?thesis
    by simp
qed

text \<open>
  At 23 s of a video of 80 s the stored percentage is 28.7: the double computed for the
  percentage lies just below 28.75.
\<close>

theorem ended_write_record_witness:
  "storeWrites (windowCloses (debouncedSaveProgress (session (video 80 0) 30))
     (dispatch (Message (StateChanged ENDED 23)) (session (video 80 0) 30))) =
   [(''video-1'',
     \<lparr>lastPosition = 23, completionPercentage = toDouble (287 / 10), completed = True,
      lastUpdated = 3000\<rparr>)]
   \<and> percentage 23 80 = Finite (8092405580431359 / 281474976710656)
   \<and> (8092405580431359 / 281474976710656 :: rat) < 115 / 4"
proof -
  have c: "coherent (session (video 80 0) 30)"
    by code_simp
  have v: "videoData (session (video 80 0) 30) = Some (video 80 0)"
    by code_simp
  have f: "isFocused (session (video 80 0) 30)"
    by code_simp
  have d: "0 < duration (video 80 0)" "(0::rat) \<le> 23" "23 \<le> duration (video 80 0)"
    by simp_all
  have rest: "storeWrites (session (video 80 0) 30) = []"
    "videoId (session (video 80 0) 30) = ''video-1''"
    "now (session (video 80 0) 30) = 0"
    by code_simp+
  have "storeWrites (windowCloses (debouncedSaveProgress (session (video 80 0) 30))
          (dispatch (Message (StateChanged ENDED 23)) (session (video 80 0) 30))) =
        [(''video-1'',
          \<lparr>lastPosition = 23, completionPercentage = toFixed1 (min100 (percentage 23 80)),
           completed = True, lastUpdated = 3000\<rparr>)]"
    using ended_write_record [OF c v f d, THEN conjunct1] unfolding rest by simp
  then show ?thesis
    unfolding toFixed1_23_80 using percentage_23_80 by simp
qed

text \<open>
  The claim as stated fails when \<^verbatim>\<open>ENDED\<close> is reported at 595 s of a 600 s video: the
  stored percentage is 99.2, which is neither \<open>100 * 595 / 600\<close> nor the double computed
  for it.  It fails in both parts when \<^verbatim>\<open>ENDED\<close> is reported at 37.5 s: the stored
  percentage is 6.3, not 6.25, and \<open>completed\<close> is true although 6.3 is below 98.
\<close>

theorem ended_write_counterexample:
  "(let p = snd (last (storeWrites
              (windowCloses (debouncedSaveProgress (session (video 600 0) 30))
                 (dispatch (Message (StateChanged ENDED 595)) (session (video 600 0) 30)))))
    in completionPercentage p = toDouble (992 / 10)
       \<and> completionPercentage p \<noteq> Finite (min 100 (100 * 595 / 600))
       \<and> completionPercentage p \<noteq> min100 (percentage 595 600))
   \<and> (let p = snd (last (storeWrites
              (windowCloses (debouncedSaveProgress (session (video 600 0) 30))
                 (dispatch (Message (StateChanged ENDED (75 / 2))) (session (video 600 0) 30)))))
    in completionPercentage p = toDouble (63 / 10) \<and> completed p
       \<and> completionPercentage p \<noteq> Finite (min 100 (100 * (75 / 2) / 600))
       \<and> min100 (percentage (75 / 2) 600) = Finite (25 / 4)
       \<and> completed p \<noteq> atLeast98 (completionPercentage p))"
proof -
  have d: "duration (video 600 0) \<noteq> 0"
    by simp
  have w: "storeWrites (windowCloses (debouncedSaveProgress (session (video 600 0) 30))
             (dispatch (Message (StateChanged ENDED position)) (session (video 600 0) 30))) =
           [(''video-1'', newProgress (video 600 0) 3000 position (Some True))]"
    for position
    using write_after_ended [OF session_600(1-3) d, of position] unfolding session_600(4-6) by simp
  have a: "newProgress (video 600 0) 3000 595 (Some True) =
           \<lparr>lastPosition = 595, completionPercentage = toDouble (992 / 10), completed = True,
            lastUpdated = 3000\<rparr>"
    by (simp add: newProgress_def Let_def toFixed1_595_600)
  have b: "completionPercentage (newProgress (video 600 0) 3000 (75 / 2) (Some True)) =
             toDouble (63 / 10)"
          "completed (newProgress (video 600 0) 3000 (75 / 2) (Some True))"
    by (simp_all add: newProgress_def Let_def toFixed1_37_5_600)
  have n1: "toDouble (992 / 10) \<noteq> Finite (min 100 (100 * 595 / 600))"
    unfolding toDouble_99_2 by simp
  have n2: "toDouble (992 / 10) \<noteq> min100 (percentage 595 600)"
    unfolding toDouble_99_2 percentage_595_600 by simp
  have n3: "toDouble (63 / 10) \<noteq> Finite (min 100 (100 * (75 / 2) / 600))"
    unfolding toDouble_6_3 by simp
  have n4: "min100 (percentage (75 / 2) 600) = Finite (25 / 4)"
    unfolding percentage_37_5_600 by simp
  have n5: "\<not> atLeast98 (toDouble (63 / 10))"
    unfolding toDouble_6_3 by simp
  show ?thesis
    unfolding w Let_def snd_conv last.simps
    using a b n1 n2 n3 n4 n5 by simp
qed

text \<open>
  Claim C7.  A video of 600 s with last position 0 is loaded, the page reports that it is
  ready and then \<^verbatim>\<open>ENDED\<close> at 595 s, and nothing else arrives: when the debounce window
  closes, exactly the record with \<open>lastPosition = 595\<close>, \<open>completionPercentage = 99.2\<close>
  and \<open>completed = True\<close> is written.
\<close>

theorem ended_at_595_of_600:
  "map_option storeWrites
     (runUntil 10 [(300, Message Ready), (400, Message (StateChanged ENDED 595))] 3400
        (session (video 600 0) 30)) =
   Some [(''video-1'',
          \<lparr>lastPosition = 595, completionPercentage = toDouble (992 / 10), completed = True,
           lastUpdated = 3400\<rparr>)]"
  unfolding run_ended_at_595
  by (simp add: newProgress_def Let_def toFixed1_595_600)



text \<open>
  Claim C8, as amended.  When the timeout of a debounced closure fires, and the video
  record that closure captured is missing or has duration 0, or the focus flag it captured
  is false, then nothing happens beyond the timeout being consumed: no store write, no
  console line, no alert, no change of the screen state, whatever the arguments of the
  pending call were.  The values tested are those of the render that created the closure,
  not those at the moment the window closes.
\<close>

theorem guarded_save_is_noop:
  assumes "settled s" and "i < length (savers s)"
    and "env_videoData (savers s ! i) = None
         \<or> (\<exists>v. env_videoData (savers s ! i) = Some v \<and> duration v = 0)
         \<or> \<not> env_isFocused (savers s ! i)"
  shows "fireSaver i s = s\<lparr>savers := (savers s)[i := (savers s ! i)\<lparr>timeoutId := None\<rparr>]\<rparr>"
proof (cases "timeoutId (savers s ! i)")
  case None
  then have "(savers s)[i := (savers s ! i)\<lparr>timeoutId := None\<rparr>] = savers s"
    by (metis list_update_id saver.surjective saver.update_convs(3))
  with None assms(2) show ?thesis
    by (simp add: fireSaver_def)
next
  case (Some a)
  then show ?thesis
    using assms by (cases a) (simp add: fireSaver_def saveProgress_guard commit_settled)
qed

theorem guarded_save_is_noop_witness:
  "fireSaver 1 (dispatch SaveAndExit (session (video 0 0) 30)) =
   (dispatch SaveAndExit (session (video 0 0) 30))
     \<lparr>savers := (savers (dispatch SaveAndExit (session (video 0 0) 30)))
        [1 := (savers (dispatch SaveAndExit (session (video 0 0) 30)) ! 1)\<lparr>timeoutId := None\<rparr>]\<rparr>
   \<and> timeoutId (savers (dispatch SaveAndExit (session (video 0 0) 30)) ! 1) =
       Some (3000, 0, Some False)"
proof -
  have a: "settled (dispatch SaveAndExit (session (video 0 0) 30))"
    by code_simp
  have b: "1 < length (savers (dispatch SaveAndExit (session (video 0 0) 30)))"
    by code_simp
  have "env_videoData (savers (dispatch SaveAndExit (session (video 0 0) 30)) ! 1) =
          Some (video 0 0)"
    by code_simp
  then have c: "env_videoData (savers (dispatch SaveAndExit (session (video 0 0) 30)) ! 1) = None
      \<or> (\<exists>v. env_videoData (savers (dispatch SaveAndExit (session (video 0 0) 30)) ! 1) = Some v
             \<and> duration v = 0)
      \<or> \<not> env_isFocused (savers (dispatch SaveAndExit (session (video 0 0) 30)) ! 1)"
    by (simp add: video_def)
  have d: "timeoutId (savers (dispatch SaveAndExit (session (video 0 0) 30)) ! 1) =
       Some (3000, 0, Some False)"
    by code_simp
  show ?thesis
    using guarded_save_is_noop [OF a b c] d by simp
qed

text \<open>
  The claim as stated fails for the focus test: a save is requested while the screen is
  focused, the screen loses focus a second later, and when the window closes the screen
  is not focused and yet the write is issued.
\<close>

theorem save_after_blur_counterexample:
  "map_option isFocused
     (runUntil 10 [(400, Message (StateChanged PAUSED 100)), (1400, FocusChanged False)] 3399
        (session (video 600 0) 30)) = Some False
   \<and> map_option storeWrites
     (runUntil 10 [(400, Message (StateChanged PAUSED 100)), (1400, FocusChanged False)] 3399
        (session (video 600 0) 30)) = Some []
   \<and> map_option isFocused
     (runUntil 10 [(400, Message (StateChanged PAUSED 100)), (1400, FocusChanged False)] 3400
        (session (video 600 0) 30)) = Some False
   \<and> map_option storeWrites
     (runUntil 10 [(400, Message (StateChanged PAUSED 100)), (1400, FocusChanged False)] 3400
        (session (video 600 0) 30)) =
       Some [(''video-1'',
              \<lparr>lastPosition = 100, completionPercentage = toDouble (167 / 10), completed = False,
               lastUpdated = 3400\<rparr>)]"
  unfolding run_paused_then_blurred
  by (simp add: newProgress_def Let_def toFixed1_100_600 atLeast98_100_600)

section \<open>Messages that do not parse\<close>

text \<open>
  Claim C9.  When \<^verbatim>\<open>JSON.parse\<close> throws on the payload of an incoming message, the
  handler's \<^verbatim>\<open>catch\<close> writes one console line and nothing else happens: the screen
  state, the pending timeouts, the injected scripts, the alerts and the store writes
  are unchanged, and no effect runs.  The handler is total, so nothing escapes it.
\<close>

theorem unparseable_message_ignored:
  "settled s \<Longrightarrow> dispatch (Message SyntaxError) s = s\<lparr>console := console s @ [ParseError]\<rparr>"
  by (simp add: dispatch_def handleWebViewMessage_def commit_settled settled_def currentDeps_def)

theorem unparseable_message_ignored_witness:
  "dispatch (Message SyntaxError) (session (video 600 0) 30) =
   (session (video 600 0) 30)\<lparr>console := [ParseError]\<rparr>"
proof -
  have a: "settled (session (video 600 0) 30)"
    by code_simp
  have b: "console (session (video 600 0) 30) = []"
    by code_simp
  show ?thesis
    using unparseable_message_ignored [OF a] by (simp add: b)
qed

section \<open>Extending the session\<close>

text \<open>
  Claim C6.  With an end time set (and truthy), \<^verbatim>\<open>handleExtendSession\<close> moves the end
  time later by exactly 300 s (300000 ms), raises the alert, and changes nothing else:
  the playback position, the video record, the pending saves and the store writes are
  as before.  The commit that follows re-runs the timer effect, which derives the
  remaining seconds again from the new end time and the clock.
\<close>

theorem extend_running_session:
  assumes "settled s" and "sessionEndTime s = Some endAt" and "endAt \<noteq> 0"
  shows "sessionEndTime (dispatch ExtendSession s) = Some (endAt + 300 * 1000)
     \<and> endAt < endAt + 300 * 1000
     \<and> handleExtendSession s =
           s\<lparr>sessionEndTime := Some (endAt + 300 * 1000),
             alerts := alerts s @ [SessionExtended]\<rparr>
     \<and> currentPlaybackTime (dispatch ExtendSession s) = currentPlaybackTime s
     \<and> videoData (dispatch ExtendSession s) = videoData s
     \<and> storeWrites (dispatch ExtendSession s) = storeWrites s
     \<and> savers (dispatch ExtendSession s) = savers s
     \<and> (isFocused s \<and> endAt + 300 * 1000 \<noteq> 0 \<longrightarrow>
          sessionTimeRemaining (dispatch ExtendSession s) =
            max 0 \<lfloor>(endAt + 300 * 1000 - of_int (now s)) / 1000\<rfloor>)"
proof -
  define e where "e = endAt + 300 * 1000"
  define s1 where "s1 = s\<lparr>sessionEndTime := Some e, alerts := alerts s @ [SessionExtended]\<rparr>"
  have ne: "Some endAt \<noteq> sessionEndTime s1"
    by (simp add: s1_def e_def)
  have h: "handleExtendSession s = s1"
    using assms(2,3) by (simp add: handleExtendSession_def truthy_def s1_def e_def)
  have r: "rendered s1 = (currentDeps s1)\<lparr>d_sessionEndTime := Some endAt\<rparr>"
    using assms(1,2) by (simp add: settled_def currentDeps_def s1_def)
  have c: "commit s1 = (timerEffect (timerCleanup s1))\<lparr>rendered := currentDeps s1\<rparr>"
    by (rule commit_timer_only [OF r ne])
  have d: "dispatch ExtendSession s = commit s1"
    by (simp add: dispatch_def h)
  have k: "hooks (dispatch ExtendSession s) = hooks s1"
    by (simp add: d hooks_commit)
  have sv: "savers (dispatch ExtendSession s) = savers s"
    by (simp add: d c timerCleanup_def) (simp add: s1_def)
  have tr: "sessionTimeRemaining (dispatch ExtendSession s) =
            max 0 \<lfloor>(e - of_int (now s)) / 1000\<rfloor>"
    if "isFocused s" "e \<noteq> 0"
  proof -
    have "sessionTimeRemaining (timerEffect (timerCleanup s1)) =
          max 0 \<lfloor>(e - of_int (now (timerCleanup s1))) / 1000\<rfloor>"
      using that
      by (intro sessionTimeRemaining_timerEffect) (simp_all add: timerCleanup_def s1_def)
    then show ?thesis
      by (simp add: d c) (simp add: timerCleanup_def s1_def)
  qed
  have "endAt < e"
    by (simp add: e_def)
  then show ?thesis
    using k h sv tr unfolding e_def [symmetric] by (simp add: hooks_def s1_def)
qed

theorem extend_running_session_witness:
  "sessionEndTime (session (video 600 0) 30) = Some 1800000
   \<and> sessionEndTime (dispatch ExtendSession (session (video 600 0) 30)) =
       Some (1800000 + 300 * 1000)
   \<and> savers (dispatch ExtendSession (session (video 600 0) 30)) =
       savers (session (video 600 0) 30)"
proof -
  have a: "settled (session (video 600 0) 30)"
    by code_simp
  have b: "sessionEndTime (session (video 600 0) 30) = Some 1800000"
    by code_simp
  have c: "(1800000 :: rat) \<noteq> 0"
    by simp
  show ?thesis
    using extend_running_session [OF a b c] b by simp
qed

text \<open>
  Claim C5.  In every state the screen reaches in which its controls can be pressed and
  no end time is set, \<^verbatim>\<open>handleExtendSession\<close> starts a timer that ends 5 minutes from now:
  the preferences are loaded there with a negative default session length \<open>d\<close>, which the
  handler takes as 0, so the end time is \<open>now\<close> plus 5 minutes and not \<open>now\<close> plus \<open>d + 5\<close>
  minutes.  The alert names 5 minutes, and on a focused screen the commit that follows
  starts the interval and shows 300 s remaining.
\<close>

theorem extend_idle_session:
  assumes "reachable s" and "pressable s" and "sessionEndTime s = None"
  shows "sessionEndTime (dispatch ExtendSession s) = Some (of_int (now s) + 5 * 60 * 1000)
     \<and> (\<exists>d. userPrefs s = Some d
           \<and> sessionEndTime (dispatch ExtendSession s) \<noteq>
               Some (of_int (now s) + (d + 5) * 60 * 1000))
     \<and> alerts (dispatch ExtendSession s) = alerts s @ [SessionStartedExtended 5]
     \<and> (isFocused s \<and> now s \<noteq> - 300000 \<longrightarrow>
          sessionTimerIntervalRef (dispatch ExtendSession s) = Some (now s + 1000)
          \<and> sessionTimeRemaining (dispatch ExtendSession s) = 300)"
proof -
  define e :: rat where "e = of_int (now s) + 5 * 60 * 1000"
  define s1 where "s1 = s\<lparr>sessionEndTime := Some e, alerts := alerts s @ [SessionStartedExtended 5]\<rparr>"
  have "idleWithoutDefault s"
    using assms(1) by (rule reachable_idleWithoutDefault)
  with assms(2,3) obtain d where d: "userPrefs s = Some d" "d < 0"
    by (auto simp: idleWithoutDefault_def pressable_def split: option.splits)
  have st: "settled s"
    using reachable_coherent [OF assms(1)] by (simp add: coherent_def)
  have h: "handleExtendSession s = s1"
    using assms(3) d by (simp add: handleExtendSession_def truthy_def Let_def s1_def e_def)
  have c: "dispatch ExtendSession s = commit s1"
    by (simp add: dispatch_def h)
  have k: "hooks (dispatch ExtendSession s) = hooks s1"
    by (simp add: c hooks_commit)
  have ne: "None \<noteq> sessionEndTime s1"
    by (simp add: s1_def)
  have r: "rendered s1 = (currentDeps s1)\<lparr>d_sessionEndTime := None\<rparr>"
    using st assms(3) by (simp add: settled_def currentDeps_def s1_def)
  have t: "commit s1 = (timerEffect (timerCleanup s1))\<lparr>rendered := currentDeps s1\<rparr>"
    by (rule commit_timer_only [OF r ne])
  have e1: "sessionEndTime (dispatch ExtendSession s) = Some e"
    using k by (simp add: hooks_def s1_def)
  have e2: "e \<noteq> of_int (now s) + (d + 5) * 60 * 1000"
    using d(2) by (simp add: e_def)
  have al: "alerts (dispatch ExtendSession s) = alerts s @ [SessionStartedExtended 5]"
    using k by (simp add: hooks_def s1_def)
  have tm: "sessionTimerIntervalRef (dispatch ExtendSession s) = Some (now s + 1000)
          \<and> sessionTimeRemaining (dispatch ExtendSession s) = 300"
    if "isFocused s" "now s \<noteq> - 300000"
  proof -
    have z: "e \<noteq> 0"
    proof
      assume "e = 0"
      then have "rat_of_int (now s) = of_int (- 300000)"
        by (simp add: e_def)
      then have "now s = - 300000"
        by (simp only: of_int_eq_iff)
      with that(2) show False by simp
    qed
    have fl: "\<lfloor>(e - of_int (now s)) / 1000\<rfloor> = 300"
      by (simp add: e_def)
    have "timerEffect (timerCleanup s1) =
          (updateTimer e (currentPlaybackTime s) (timerCleanup s1))
            \<lparr>sessionTimerIntervalRef := Some (now s + 1000)\<rparr>"
      using that(1) z by (simp add: timerEffect_def timerCleanup_def s1_def)
    moreover have "updateTimer e (currentPlaybackTime s) (timerCleanup s1) =
          (timerCleanup s1)\<lparr>sessionTimeRemaining := 300\<rparr>"
      using fl by (simp add: updateTimer_def Let_def timerCleanup_def s1_def)
    ultimately show ?thesis
      by (simp add: c t)
  qed
  show ?thesis
    using e1 e2 d(1) al tm unfolding e_def by simp
qed

theorem extend_idle_session_witness:
  "sessionEndTime
     (dispatch ExtendSession
        (dispatch (Fetched True (Doc (video 600 0)) (Doc (Some (- 10))))
           (mount ''video-1'' True 0))) = Some (5 * 60 * 1000)
   \<and> userPrefs (dispatch (Fetched True (Doc (video 600 0)) (Doc (Some (- 10))))
           (mount ''video-1'' True 0)) = Some (- 10)
   \<and> sessionTimerIntervalRef
     (dispatch ExtendSession
        (dispatch (Fetched True (Doc (video 600 0)) (Doc (Some (- 10))))
           (mount ''video-1'' True 0))) = Some 1000
   \<and> sessionTimeRemaining
     (dispatch ExtendSession
        (dispatch (Fetched True (Doc (video 600 0)) (Doc (Some (- 10))))
           (mount ''video-1'' True 0))) = 300"
proof -
  have r: "reachable (dispatch (Fetched True (Doc (video 600 0)) (Doc (Some (- 10))))
             (mount ''video-1'' True 0))"
    by (rule reachable.event) (rule reachable.mounted)
  have p: "pressable (dispatch (Fetched True (Doc (video 600 0)) (Doc (Some (- 10))))
             (mount ''video-1'' True 0))"
    by code_simp
  have a: "sessionEndTime (dispatch (Fetched True (Doc (video 600 0)) (Doc (Some (- 10))))
             (mount ''video-1'' True 0)) = None"
    by code_simp
  have b: "userPrefs (dispatch (Fetched True (Doc (video 600 0)) (Doc (Some (- 10))))
             (mount ''video-1'' True 0)) = Some (- 10)"
    by code_simp
  have c: "now (dispatch (Fetched True (Doc (video 600 0)) (Doc (Some (- 10))))
             (mount ''video-1'' True 0)) = 0"
    by code_simp
  have f: "isFocused (dispatch (Fetched True (Doc (video 600 0)) (Doc (Some (- 10))))
             (mount ''video-1'' True 0))"
    by code_simp
  show ?thesis
    using extend_idle_session [OF r p a] by (simp add: b c f)
qed

section \<open>Save and exit\<close>




section \<open>Where the screen departs from the intended behaviour\<close>

text \<open>
  Claim C2 does not hold of the screen.  The cleanup of the \<^verbatim>\<open>AppState\<close> effect calls the
  debounced closure with the playback position of the previous render, and it runs after
  every \<^verbatim>\<open>TIME_UPDATE\<close> that changes the position, so it replaces the pending arguments.
  Here a video of 600 s is loaded at position 10, and \<^verbatim>\<open>TIME_UPDATE\<close> messages with 11 s
  and 12 s arrive one second apart: the record written when the window closes has
  \<open>lastPosition = 11\<close>, and three seconds later a second record is written although no
  further event arrived.
\<close>

theorem time_updates_write_previous_position:
  "map_option storeWrites
     (runUntil 10
        [(300, Message Ready), (400, Message (TimeUpdate 11)), (1400, Message (TimeUpdate 12))]
        4400 (session (video 600 10) 30)) =
     Some [(''video-1'',
            \<lparr>lastPosition = 11, completionPercentage = toDouble (18 / 10), completed = False,
             lastUpdated = 4400\<rparr>)]
   \<and> map_option storeWrites
     (runUntil 20
        [(300, Message Ready), (400, Message (TimeUpdate 11)), (1400, Message (TimeUpdate 12))]
        7400 (session (video 600 10) 30)) =
     Some [(''video-1'',
            \<lparr>lastPosition = 11, completionPercentage = toDouble (18 / 10), completed = False,
             lastUpdated = 4400\<rparr>),
           (''video-1'',
            \<lparr>lastPosition = 12, completionPercentage = Finite 2, completed = False,
             lastUpdated = 7400\<rparr>)]"
  unfolding run_time_updates
  by (simp add: newProgress_def Let_def toFixed1_11_600 atLeast98_11_600 toFixed1_12_600
      atLeast98_12_600)

text \<open>
  Claim C3 does not hold of the screen.  With a session of one minute, the request for
  the end of the session is injected once when the remaining time reaches 0 and the
  interval is cleared.  But the timer effect depends on \<^verbatim>\<open>currentPlaybackTime\<close>, and its
  first \<^verbatim>\<open>updateTimer()\<close> runs before \<^verbatim>\<open>setInterval\<close>: a \<^verbatim>\<open>TIME_UPDATE\<close> after the
  expiry injects the request again and restarts the interval, whose next tick injects it
  a third time.  The same happens without any message when the screen regains focus
  after the end time: the request is injected twice.
\<close>

theorem session_end_requested_again:
  "map_option injected
     (runUntil 100 [(300, Message Ready)] 60000 (session (video 600 0) 1)) =
     Some [PostSessionEndRequest 0]
   \<and> map_option sessionTimerIntervalRef
     (runUntil 100 [(300, Message Ready)] 60000 (session (video 600 0) 1)) = Some None
   \<and> map_option injected
     (runUntil 100 [(300, Message Ready), (60400, Message (TimeUpdate 61))] 61400
        (session (video 600 0) 1)) =
     Some [PostSessionEndRequest 0, PostSessionEndRequest 61, PostSessionEndRequest 61]
   \<and> map_option injected
     (runUntil 100 [(1000, FocusChanged False), (61000, FocusChanged True)] 62000
        (session (video 600 0) 1)) =
     Some [PostSessionEndRequest 0, PostSessionEndRequest 0]"
  by code_simp

end

